theory Spec2Isabelle
  imports Main "HOL-Library.Char_ord" "HOL-Library.List_Lexorder"
begin

section \<open>Python values and errors\<close>

text \<open>
  The configuration engine of \<^verbatim>\<open>pykern/pkconfig.py\<close>, embedded function by function.
  Strings are byte strings (\<^typ>\<open>string\<close>), compared as Python compares them: by code
  point, lexicographically.

  A Python value is \<^verbatim>\<open>None\<close>, a plain \<^verbatim>\<open>str\<close>, a \<^verbatim>\<open>Verbatim\<close> (the subclass of
  \<^verbatim>\<open>str\<close> declared in the module), a \<^verbatim>\<open>list\<close>, a mapping (the \<^verbatim>\<open>OrderedMapping\<close> that
  resolution builds, or a \<^verbatim>\<open>dict\<close> given as a default), or an object of any other type
  (a number, a file, a path): \<open>PObj b n\<close> is such an object with truth value \<open>b\<close> and
  identity \<open>n\<close>.
\<close>

datatype pyval =
    PNone
  | PStr string
  | PVerbatim string
  | PList "pyval list"
  | PMap "(string \<times> pyval) list"
  | PObj bool nat

text \<open>
  Nested configuration: what a channel function returns, and what a module passes to
  \<^verbatim>\<open>init\<close>. A \<^verbatim>\<open>dict\<close> is an inner node (its items in iteration order), anything else
  is a leaf.
\<close>

datatype 'a nested = Leaf 'a | Dict "(string \<times> 'a nested) list"

text \<open>
  Every failure of the module is an exception that ends the call. The assertions of the
  module are told apart by what they assert; the string is the text the message starts
  with (the key's dotted form \<^verbatim>\<open>k.msg\<close>, where the code formats it).
\<close>

datatype error =
    InvalidKey string              \<comment> \<open>\<^verbatim>\<open>'{}: invalid key must match {}'\<close>\<close>
  | DuplicateKey string            \<comment> \<open>\<^verbatim>\<open>'{}: duplicate key'\<close>\<close>
  | TypeMismatch string pyval pyval \<comment> \<open>\<^verbatim>\<open>'{}: type mismatch between new value ({}) and base ({})'\<close>\<close>
  | MissingRequired string         \<comment> \<open>\<^verbatim>\<open>'{}: config value missing and is required'\<close>\<close>
  | DefaultNotList string pyval    \<comment> \<open>\<^verbatim>\<open>'{}: default ({}) must be a list'\<close>\<close>
  | MustBeList string pyval        \<comment> \<open>\<^verbatim>\<open>'{}: value ({}) must be a list or None'\<close>\<close>
  | DictTypeCollision string       \<comment> \<open>\<^verbatim>\<open>'{}: type collision on existing non-dict ({}={})'\<close>\<close>
  | VerbatimFormat string          \<comment> \<open>\<^verbatim>\<open>'{}: you cannot refer to this formatted value'\<close>\<close>
  | LoadPathFrozen                 \<comment> \<open>\<^verbatim>\<open>'Values coalesced before load_path is initialized'\<close>\<close>
  | InvalidChannel string          \<comment> \<open>\<^verbatim>\<open>'{}: invalid ${}; must be {}'\<close>\<close>
  | RootNotInLoadPath string       \<comment> \<open>\<^verbatim>\<open>'{}: module root not in load_path ({})'\<close>\<close>
  | NameError string               \<comment> \<open>a name that is not defined\<close>
  | KeyError string                \<comment> \<open>a keyword that \<^verbatim>\<open>str.format\<close> was not given\<close>
  | IndexError                     \<comment> \<open>an index out of range: a positional field, where no positional argument is given\<close>
  | ValueError                     \<comment> \<open>a malformed format string\<close>
  | AttributeError string          \<comment> \<open>an attribute that the object does not have\<close>
  | TypeError                      \<comment> \<open>an operation on a value of the wrong type\<close>
  | ParserError string             \<comment> \<open>whatever a declared parser raises\<close>

fun is_list :: "pyval \<Rightarrow> bool" where
  "is_list (PList xs) = True"
| "is_list v = False"

fun is_string :: "pyval \<Rightarrow> bool" where
  "is_string (PStr s) = True"
| "is_string (PVerbatim s) = True"
| "is_string v = False"

fun is_verbatim :: "pyval \<Rightarrow> bool" where
  "is_verbatim (PVerbatim s) = True"
| "is_verbatim v = False"

fun is_mapping :: "pyval \<Rightarrow> bool" where
  "is_mapping (PMap m) = True"
| "is_mapping v = False"

fun items_of :: "pyval \<Rightarrow> pyval list" where
  "items_of (PList xs) = xs"
| "items_of v = []"

fun chars_of :: "pyval \<Rightarrow> string" where
  "chars_of (PStr s) = s"
| "chars_of (PVerbatim s) = s"
| "chars_of v = []"

fun truthy :: "pyval \<Rightarrow> bool" where
  "truthy PNone = False"
| "truthy (PStr s) = (s \<noteq> [])"
| "truthy (PVerbatim s) = (s \<noteq> [])"
| "truthy (PList xs) = (xs \<noteq> [])"
| "truthy (PMap m) = (m \<noteq> [])"
| "truthy (PObj b n) = b"

text \<open>
  The message of an assertion is built with \<^verbatim>\<open>'...'.format(...)\<close> before the error is
  raised. Formatting a \<^verbatim>\<open>Verbatim\<close> calls \<^verbatim>\<open>Verbatim.__format__\<close>, which raises its own
  assertion error: with a \<^verbatim>\<open>Verbatim\<close> among the values \<open>vs\<close> that the message shows, the
  error raised is that of the first of them and not the error \<open>e\<close> that was meant.
\<close>

definition message :: "pyval list \<Rightarrow> error \<Rightarrow> error" where
  "message vs e =
     (case filter is_verbatim vs of
        [] \<Rightarrow> e
      | v # _ \<Rightarrow> VerbatimFormat (chars_of v))"

section \<open>Strings\<close>

definition lower_letters :: string where
  "lower_letters = ''abcdefghijklmnopqrstuvwxyz''"

definition upper_letters :: string where
  "upper_letters = ''ABCDEFGHIJKLMNOPQRSTUVWXYZ''"

definition digits :: string where
  "digits = ''0123456789''"

definition upper_char :: "char \<Rightarrow> char" where
  "upper_char c = (case map_of (zip lower_letters upper_letters) c of Some u \<Rightarrow> u | None \<Rightarrow> c)"

definition lower_char :: "char \<Rightarrow> char" where
  "lower_char c = (case map_of (zip upper_letters lower_letters) c of Some u \<Rightarrow> u | None \<Rightarrow> c)"

definition upper :: "string \<Rightarrow> string" where
  "upper s = map upper_char s"

definition lower :: "string \<Rightarrow> string" where
  "lower s = map lower_char s"

text \<open>\<^verbatim>\<open>sep.join(parts)\<close>\<close>

fun join :: "string \<Rightarrow> string list \<Rightarrow> string" where
  "join sep [] = []"
| "join sep [p] = p"
| "join sep (p # q # ps) = p @ sep @ join sep (q # ps)"

text \<open>\<^verbatim>\<open>s.split(c)\<close> for a separator of one character: never empty.\<close>

fun split :: "char \<Rightarrow> string \<Rightarrow> string list" where
  "split sep [] = [[]]"
| "split sep (c # cs) =
     (if c = sep then [] # split sep cs
      else (case split sep cs of [] \<Rightarrow> [[c]] | p # ps \<Rightarrow> (c # p) # ps))"

section \<open>Keys\<close>

text \<open>
  \<^verbatim>\<open>KEY_RE = re.compile('^[a-z][a-z0-9_]*[a-z0-9]$', flags=re.IGNORECASE)\<close>, used with
  \<^verbatim>\<open>search\<close>. Without \<^verbatim>\<open>re.MULTILINE\<close>, \<^verbatim>\<open>$\<close> matches at the end of the string and also
  just before a newline that ends the string.
\<close>

definition is_alpha :: "char \<Rightarrow> bool" where
  "is_alpha c = (c \<in> set lower_letters \<or> c \<in> set upper_letters)"

definition is_alnum :: "char \<Rightarrow> bool" where
  "is_alnum c = (is_alpha c \<or> c \<in> set digits)"

definition key_pattern :: "string \<Rightarrow> bool" where
  "key_pattern s =
     (case s of
        [] \<Rightarrow> False
      | c # cs \<Rightarrow> is_alpha c \<and> cs \<noteq> [] \<and>
          list_all (\<lambda>x. is_alnum x \<or> x = CHR ''_'') (butlast cs) \<and> is_alnum (last cs))"

definition KEY_RE :: "string \<Rightarrow> bool" where
  "KEY_RE s = (key_pattern s \<or> (s \<noteq> [] \<and> last s = CHR 0x0A \<and> key_pattern (butlast s)))"

text \<open>
  A dictionary key is a \<^verbatim>\<open>_Key\<close> (a \<^verbatim>\<open>str\<close> that remembers its parts) or a plain \<^verbatim>\<open>str\<close>.
  Both hash and compare as their string: \<^verbatim>\<open>'_'.join(parts).upper()\<close> for a \<^verbatim>\<open>_Key\<close>.
\<close>

datatype key = Key "string list" | StrKey string

fun key_str :: "key \<Rightarrow> string" where
  "key_str (Key ps) = upper (join ''_'' ps)"
| "key_str (StrKey s) = s"

text \<open>\<^verbatim>\<open>k.msg\<close> and \<^verbatim>\<open>k.parts\<close>; a plain \<^verbatim>\<open>str\<close> has neither.\<close>

fun key_msg :: "key \<Rightarrow> string" where
  "key_msg (Key ps) = join ''.'' ps"
| "key_msg (StrKey s) = []"

fun key_parts :: "key \<Rightarrow> string list option" where
  "key_parts (Key ps) = Some ps"
| "key_parts (StrKey s) = None"

text \<open>
  A \<^verbatim>\<open>dict\<close> keyed by such keys, in insertion order. \<^verbatim>\<open>d[k] = v\<close> on a key that is
  already there keeps the key object that is there and replaces its value; otherwise
  the item is added last.
\<close>

type_synonym 'v pydict = "(key \<times> 'v) list"

fun getitem :: "'v pydict \<Rightarrow> string \<Rightarrow> 'v option" where
  "getitem [] s = None"
| "getitem ((k, v) # d) s = (if key_str k = s then Some v else getitem d s)"

fun setitem :: "key \<Rightarrow> 'v \<Rightarrow> 'v pydict \<Rightarrow> 'v pydict" where
  "setitem k v [] = [(k, v)]"
| "setitem k v ((k', v') # d) =
     (if key_str k' = key_str k then (k', v) # d else (k', v') # setitem k v d)"

text \<open>\<^verbatim>\<open>sorted(d.keys())\<close>, each key with its value.\<close>

definition sorted_items :: "'v pydict \<Rightarrow> (key \<times> 'v) list" where
  "sorted_items d = sort_key (\<lambda>kv. key_str (fst kv)) d"

section \<open>Flattening and merging\<close>

text \<open>
  \<^verbatim>\<open>_flatten_keys(key_parts, values, res)\<close>: \<open>res\<close> is updated in place in the source and
  returned here. Only leaves are stored.
\<close>

fun flatten_keys :: "string list \<Rightarrow> (string \<times> 'a nested) list \<Rightarrow> 'a pydict \<Rightarrow> error + 'a pydict" where
  "flatten_keys kp [] res = Inr res"
| "flatten_keys kp ((name, Dict d) # rest) res =
     (let k = Key (kp @ split CHR ''.'' name) in
      if \<not> KEY_RE (key_str k) then Inl (InvalidKey (key_msg k))
      else if getitem res (key_str k) \<noteq> None then Inl (DuplicateKey (key_msg k))
      else (case flatten_keys (kp @ split CHR ''.'' name) d res of
              Inl e \<Rightarrow> Inl e
            | Inr res' \<Rightarrow> flatten_keys kp rest res'))"
| "flatten_keys kp ((name, Leaf v) # rest) res =
     (let k = Key (kp @ split CHR ''.'' name) in
      if \<not> KEY_RE (key_str k) then Inl (InvalidKey (key_msg k))
      else if getitem res (key_str k) \<noteq> None then Inl (DuplicateKey (key_msg k))
      else flatten_keys kp rest (setitem k v res))"

text \<open>
  The body of the loop of \<^verbatim>\<open>_values_flatten\<close>: one key \<open>k\<close> of the new values, with its
  value \<open>n\<close>, merged into \<open>base\<close>.
\<close>

definition merge_item :: "pyval pydict \<Rightarrow> key \<times> pyval \<Rightarrow> error + pyval pydict" where
  "merge_item base kn =
     (let k = fst kn; n = snd kn in
      case getitem base (key_str k) of
        None \<Rightarrow> Inr (setitem k n base)
      | Some b \<Rightarrow>
          if is_list b \<or> is_list n then
            (if b = PNone \<or> n = PNone then Inr (setitem k n base)
             else if is_list b \<and> is_list n then
               Inr (setitem k (PList (items_of n @ items_of b)) base)
             else Inl (message [n, b] (TypeMismatch (key_msg k) n b)))
          else Inr (setitem k n base))"

fun merge_items :: "pyval pydict \<Rightarrow> (key \<times> pyval) list \<Rightarrow> error + pyval pydict" where
  "merge_items base [] = Inr base"
| "merge_items base (kn # kns) =
     (case merge_item base kn of Inl e \<Rightarrow> Inl e | Inr base' \<Rightarrow> merge_items base' kns)"

text \<open>\<^verbatim>\<open>_values_flatten(base, new)\<close>\<close>

definition values_flatten :: "pyval pydict \<Rightarrow> (string \<times> pyval nested) list \<Rightarrow> error + pyval pydict" where
  "values_flatten base new =
     (case flatten_keys [] new [] of
        Inl e \<Rightarrow> Inl e
      | Inr new_values \<Rightarrow> merge_items base (sorted_items new_values))"

section \<open>String interpolation\<close>

text \<open>
  \<^verbatim>\<open>res.format(**_parsed_values)\<close> is the builtin \<^verbatim>\<open>str.format\<close> with keyword arguments
  only. It is modelled as CPython 3 implements it (\<^verbatim>\<open>Objects/stringlib/unicode_format.h\<close>),
  function by function: the literal text with the escapes \<^verbatim>\<open>{{\<close> and \<^verbatim>\<open>}}\<close>, and the
  replacement fields \<^verbatim>\<open>{field_name!conversion:format_spec}\<close>, where the field name is a
  keyword followed by attributes \<^verbatim>\<open>.name\<close> and items \<^verbatim>\<open>[index]\<close>.

  What the interpreter answers about values that are not of this module is taken as
  given, in a record of builtins: \<^verbatim>\<open>str(v)\<close> for a value that is neither a string nor
  \<^verbatim>\<open>None\<close>; \<^verbatim>\<open>repr(v)\<close> and \<^verbatim>\<open>ascii(v)\<close>; \<^verbatim>\<open>getattr(v, name)\<close>; \<^verbatim>\<open>v[i]\<close> and \<^verbatim>\<open>v[name]\<close> for a
  mapping or another object; \<^verbatim>\<open>format(v, spec)\<close> for a format specification that is not
  empty and a value that is not a \<^verbatim>\<open>Verbatim\<close>.
\<close>

record builtins =
  str_of :: "pyval \<Rightarrow> string"
  repr_of :: "pyval \<Rightarrow> string"
  ascii_of :: "pyval \<Rightarrow> string"
  attr_of :: "pyval \<Rightarrow> string \<Rightarrow> error + pyval"
  item_of :: "pyval \<Rightarrow> nat + string \<Rightarrow> error + pyval"
  format_of :: "pyval \<Rightarrow> string \<Rightarrow> error + string"

text \<open>
  The builtin \<^verbatim>\<open>str\<close>, which is also the parser of many declarations. A \<^verbatim>\<open>Verbatim\<close> does not
  define \<^verbatim>\<open>__str__\<close>: \<^verbatim>\<open>str\<close> of it is a plain \<^verbatim>\<open>str\<close> with the same text.
\<close>

definition py_str :: "builtins \<Rightarrow> pyval \<Rightarrow> error + pyval" where
  "py_str bi v =
     (case v of
        PStr s \<Rightarrow> Inr (PStr s)
      | PVerbatim s \<Rightarrow> Inr (PStr s)
      | PNone \<Rightarrow> Inr (PStr ''None'')
      | _ \<Rightarrow> Inr (PStr (str_of bi v)))"

text \<open>
  \<^verbatim>\<open>format(value, spec)\<close> calls \<^verbatim>\<open>type(value).__format__\<close>. For a \<^verbatim>\<open>Verbatim\<close> that is
  \<^verbatim>\<open>Verbatim.__format__\<close> of the module, which raises whatever the specification. With the
  empty specification, a plain \<^verbatim>\<open>str\<close> gives its text, \<^verbatim>\<open>None\<close> gives \<^verbatim>\<open>'None'\<close> and any
  other object gives \<^verbatim>\<open>str(value)\<close>.
\<close>

definition format_value :: "builtins \<Rightarrow> pyval \<Rightarrow> string \<Rightarrow> error + string" where
  "format_value bi v spec =
     (case v of
        PVerbatim s \<Rightarrow> Inl (VerbatimFormat s)
      | PStr s \<Rightarrow> if spec = [] then Inr s else format_of bi v spec
      | PNone \<Rightarrow> if spec = [] then Inr ''None'' else format_of bi v spec
      | _ \<Rightarrow> if spec = [] then Inr (str_of bi v) else format_of bi v spec)"

text \<open>
  \<^verbatim>\<open>get_integer\<close>: the number that a text of decimal digits denotes, \<open>None\<close> when the text
  is empty or has another character; \<^verbatim>\<open>ValueError\<close> (too many decimal digits) as soon
  as the number would exceed \<^verbatim>\<open>PY_SSIZE_T_MAX\<close>, here that of a 64-bit build.
\<close>

definition PY_SSIZE_T_MAX :: nat where
  "PY_SSIZE_T_MAX = 9223372036854775807"

definition digit_val :: "char \<Rightarrow> nat option" where
  "digit_val c = map_of (zip digits [0, 1, 2, 3, 4, 5, 6, 7, 8, 9]) c"

fun get_digits :: "nat \<Rightarrow> string \<Rightarrow> error + nat option" where
  "get_digits acc [] = Inr (Some acc)"
| "get_digits acc (c # cs) =
     (case digit_val c of
        None \<Rightarrow> Inr None
      | Some d \<Rightarrow>
          if acc > (PY_SSIZE_T_MAX - d) div 10 then Inl ValueError
          else get_digits (acc * 10 + d) cs)"

definition get_integer :: "string \<Rightarrow> error + nat option" where
  "get_integer s = (if s = [] then Inr None else get_digits 0 s)"

text \<open>
  \<^verbatim>\<open>obj[index]\<close> inside a field name: \<open>idx\<close> is the index when the text \<open>name\<close> between
  the brackets is a number. A string, plain or \<^verbatim>\<open>Verbatim\<close>, gives the character at the
  index as a plain \<^verbatim>\<open>str\<close>; a list gives its element; neither takes a name.
\<close>

definition get_item :: "builtins \<Rightarrow> pyval \<Rightarrow> nat option \<Rightarrow> string \<Rightarrow> error + pyval" where
  "get_item bi v idx name =
     (case idx of
        None \<Rightarrow>
          if is_string v \<or> is_list v \<or> v = PNone then Inl TypeError
          else item_of bi v (Inr name)
      | Some i \<Rightarrow>
          (case v of
             PStr s \<Rightarrow> if i < length s then Inr (PStr [s ! i]) else Inl IndexError
           | PVerbatim s \<Rightarrow> if i < length s then Inr (PStr [s ! i]) else Inl IndexError
           | PList xs \<Rightarrow> if i < length xs then Inr (xs ! i) else Inl IndexError
           | PNone \<Rightarrow> Inl TypeError
           | _ \<Rightarrow> item_of bi v (Inl i)))"

text \<open>
  The loop of \<^verbatim>\<open>get_field_object\<close> over the rest of the field name, after its first
  part: each \<^verbatim>\<open>.name\<close> is an attribute and each \<^verbatim>\<open>[index]\<close> an item of the object reached
  so far. \<open>lookup_attr\<close> and \<open>lookup_item\<close> collect the name up to the next \<^verbatim>\<open>.\<close> or
  \<^verbatim>\<open>[\<close>, and up to \<^verbatim>\<open>]\<close>. An empty name, a missing \<^verbatim>\<open>]\<close> and any other character after
  \<^verbatim>\<open>]\<close> are \<^verbatim>\<open>ValueError\<close>s, raised when the walk gets there.
\<close>

fun lookup_rest :: "builtins \<Rightarrow> pyval \<Rightarrow> string \<Rightarrow> error + pyval"
  and lookup_attr :: "builtins \<Rightarrow> pyval \<Rightarrow> string \<Rightarrow> string \<Rightarrow> error + pyval"
  and lookup_item :: "builtins \<Rightarrow> pyval \<Rightarrow> string \<Rightarrow> string \<Rightarrow> error + pyval"
where
  "lookup_rest bi v [] = Inr v"
| "lookup_rest bi v (c # cs) =
     (if c = CHR ''.'' then lookup_attr bi v [] cs
      else if c = CHR ''['' then lookup_item bi v [] cs
      else Inl ValueError)"
| "lookup_attr bi v name [] = (if name = [] then Inl ValueError else attr_of bi v name)"
| "lookup_attr bi v name (c # cs) =
     (if c = CHR ''.'' \<or> c = CHR ''['' then
        (if name = [] then Inl ValueError
         else (case attr_of bi v name of
                 Inl e \<Rightarrow> Inl e
               | Inr v' \<Rightarrow>
                   if c = CHR ''.'' then lookup_attr bi v' [] cs else lookup_item bi v' [] cs))
      else lookup_attr bi v (name @ [c]) cs)"
| "lookup_item bi v name [] = Inl ValueError"
| "lookup_item bi v name (c # cs) =
     (if c = CHR '']'' then
        (case get_integer name of
           Inl e \<Rightarrow> Inl e
         | Inr idx \<Rightarrow>
             if name = [] then Inl ValueError
             else (case get_item bi v idx name of
                     Inl e \<Rightarrow> Inl e
                   | Inr v' \<Rightarrow> lookup_rest bi v' cs))
      else lookup_item bi v (name @ [c]) cs)"

text \<open>
  \<^verbatim>\<open>get_field_object\<close>: the first part of the field name, up to the first \<^verbatim>\<open>.\<close> or \<^verbatim>\<open>[\<close>,
  is a position when it is empty or a number and a keyword otherwise. \<^verbatim>\<open>format\<close> is called
  with keywords only, so every position is out of range.
\<close>

definition get_field_object :: "builtins \<Rightarrow> (string \<Rightarrow> pyval option) \<Rightarrow> string \<Rightarrow> error + pyval" where
  "get_field_object bi kwargs field_name =
     (let first = takeWhile (\<lambda>c. c \<noteq> CHR ''.'' \<and> c \<noteq> CHR ''['') field_name;
          rest = dropWhile (\<lambda>c. c \<noteq> CHR ''.'' \<and> c \<noteq> CHR ''['') field_name
      in case get_integer first of
           Inl e \<Rightarrow> Inl e
         | Inr idx \<Rightarrow>
             if first = [] \<or> idx \<noteq> None then Inl IndexError
             else (case kwargs first of
                     None \<Rightarrow> Inl (KeyError first)
                   | Some v \<Rightarrow> lookup_rest bi v rest))"

text \<open>
  \<^verbatim>\<open>do_conversion\<close>: \<^verbatim>\<open>!r\<close>, \<^verbatim>\<open>!s\<close> and \<^verbatim>\<open>!a\<close> replace the object by its \<^verbatim>\<open>repr\<close>, \<^verbatim>\<open>str\<close> or
  \<^verbatim>\<open>ascii\<close>, each a plain \<^verbatim>\<open>str\<close>. \<^verbatim>\<open>Verbatim\<close> inherits all three from \<^verbatim>\<open>str\<close>.
\<close>

definition do_conversion :: "builtins \<Rightarrow> pyval \<Rightarrow> char \<Rightarrow> error + pyval" where
  "do_conversion bi v c =
     (if c = CHR ''r'' then Inr (PStr (repr_of bi v))
      else if c = CHR ''s'' then py_str bi v
      else if c = CHR ''a'' then Inr (PStr (ascii_of bi v))
      else Inl ValueError)"

text \<open>
  \<^verbatim>\<open>output_markup\<close>, one replacement field: look the object up, convert it, expand the
  format specification if it has a \<^verbatim>\<open>{\<close> (by \<open>expand\<close>, the formatting one level deeper),
  and render with \<^verbatim>\<open>format(object, spec)\<close>. The conversion is \<open>None\<close> when the field has
  none.
\<close>

definition render_field ::
  "(string \<Rightarrow> error + string) \<Rightarrow> builtins \<Rightarrow> (string \<Rightarrow> pyval option) \<Rightarrow>
   string \<Rightarrow> char option \<Rightarrow> string \<Rightarrow> error + string" where
  "render_field expand bi kwargs field_name conversion format_spec =
     (case get_field_object bi kwargs field_name of
        Inl e \<Rightarrow> Inl e
      | Inr obj \<Rightarrow>
          (case (case conversion of None \<Rightarrow> Inr obj | Some c \<Rightarrow> do_conversion bi obj c) of
             Inl e \<Rightarrow> Inl e
           | Inr v \<Rightarrow>
               (case (if CHR ''{'' \<in> set format_spec then expand format_spec
                      else Inr format_spec) of
                  Inl e \<Rightarrow> Inl e
                | Inr spec \<Rightarrow> format_value bi v spec)))"

definition emit :: "string \<Rightarrow> error + string \<Rightarrow> error + string" where
  "emit s r = (case r of Inl e \<Rightarrow> Inl e | Inr t \<Rightarrow> Inr (s @ t))"

text \<open>
  \<^verbatim>\<open>do_markup\<close> with \<^verbatim>\<open>MarkupIterator_next\<close> and \<^verbatim>\<open>parse_field\<close>, reading the format string
  from the left. \<open>do_markup\<close> copies the literal text; a single \<^verbatim>\<open>}\<close>, and a \<^verbatim>\<open>{\<close> that
  ends the string, are errors. \<open>parse_field\<close> reads the field name up to \<^verbatim>\<open>}\<close>, \<^verbatim>\<open>!\<close> or
  \<^verbatim>\<open>:\<close>, and \<open>parse_index\<close> the part of it in brackets, where these characters do not
  end the name. \<open>parse_conversion\<close> reads the character after \<^verbatim>\<open>!\<close>, which only \<^verbatim>\<open>}\<close> or
  \<^verbatim>\<open>:\<close> may follow (the conversion character \<^verbatim>\<open>NUL\<close> is no conversion). \<open>parse_spec\<close>
  reads the format specification up to the \<^verbatim>\<open>}\<close> that matches the \<^verbatim>\<open>{\<close> of the field:
  \<open>n\<close> counts the braces that are open inside it. A field that the string does not
  complete is a \<^verbatim>\<open>ValueError\<close>. Each field is rendered as soon as it is read, so the
  first failure from the left is the one raised.
\<close>

fun do_markup ::
    "(string \<Rightarrow> error + string) \<Rightarrow> builtins \<Rightarrow> (string \<Rightarrow> pyval option) \<Rightarrow> string \<Rightarrow> error + string"
  and parse_field ::
    "(string \<Rightarrow> error + string) \<Rightarrow> builtins \<Rightarrow> (string \<Rightarrow> pyval option) \<Rightarrow> string \<Rightarrow> string \<Rightarrow>
     error + string"
  and parse_index ::
    "(string \<Rightarrow> error + string) \<Rightarrow> builtins \<Rightarrow> (string \<Rightarrow> pyval option) \<Rightarrow> string \<Rightarrow> string \<Rightarrow>
     error + string"
  and parse_conversion ::
    "(string \<Rightarrow> error + string) \<Rightarrow> builtins \<Rightarrow> (string \<Rightarrow> pyval option) \<Rightarrow> string \<Rightarrow> string \<Rightarrow>
     error + string"
  and parse_spec ::
    "(string \<Rightarrow> error + string) \<Rightarrow> builtins \<Rightarrow> (string \<Rightarrow> pyval option) \<Rightarrow> string \<Rightarrow>
     char option \<Rightarrow> string \<Rightarrow> nat \<Rightarrow> string \<Rightarrow> error + string"
where
  "do_markup ex bi kwargs [] = Inr []"
| "do_markup ex bi kwargs [c] = (if c = CHR ''{'' \<or> c = CHR ''}'' then Inl ValueError else Inr [c])"
| "do_markup ex bi kwargs (c # d # ds) =
     (if c = CHR ''{'' then
        (if d = CHR ''{'' then emit [c] (do_markup ex bi kwargs ds)
         else parse_field ex bi kwargs [] (d # ds))
      else if c = CHR ''}'' then
        (if d = CHR ''}'' then emit [c] (do_markup ex bi kwargs ds) else Inl ValueError)
      else emit [c] (do_markup ex bi kwargs (d # ds)))"
| "parse_field ex bi kwargs name [] = Inl ValueError"
| "parse_field ex bi kwargs name (c # cs) =
     (if c = CHR ''}'' then
        (case render_field ex bi kwargs name None [] of
           Inl e \<Rightarrow> Inl e
         | Inr t \<Rightarrow> emit t (do_markup ex bi kwargs cs))
      else if c = CHR ''{'' then Inl ValueError
      else if c = CHR ''['' then parse_index ex bi kwargs (name @ [c]) cs
      else if c = CHR ''!'' then parse_conversion ex bi kwargs name cs
      else if c = CHR '':'' then parse_spec ex bi kwargs name None [] 0 cs
      else parse_field ex bi kwargs (name @ [c]) cs)"
| "parse_index ex bi kwargs name [] = Inl ValueError"
| "parse_index ex bi kwargs name (c # cs) =
     (if c = CHR '']'' then parse_field ex bi kwargs (name @ [c]) cs
      else parse_index ex bi kwargs (name @ [c]) cs)"
| "parse_conversion ex bi kwargs name [] = Inl ValueError"
| "parse_conversion ex bi kwargs name [c] = Inl ValueError"
| "parse_conversion ex bi kwargs name (c # d # ds) =
     (if d = CHR ''}'' then
        (case render_field ex bi kwargs name (if c = CHR 0x00 then None else Some c) [] of
           Inl e \<Rightarrow> Inl e
         | Inr t \<Rightarrow> emit t (do_markup ex bi kwargs ds))
      else if d = CHR '':'' then
        parse_spec ex bi kwargs name (if c = CHR 0x00 then None else Some c) [] 0 ds
      else Inl ValueError)"
| "parse_spec ex bi kwargs name conv spec n [] = Inl ValueError"
| "parse_spec ex bi kwargs name conv spec n (c # cs) =
     (if c = CHR ''}'' then
        (case n of
           0 \<Rightarrow>
             (case render_field ex bi kwargs name conv spec of
                Inl e \<Rightarrow> Inl e
              | Inr t \<Rightarrow> emit t (do_markup ex bi kwargs cs))
         | Suc m \<Rightarrow> parse_spec ex bi kwargs name conv (spec @ [c]) m cs)
      else parse_spec ex bi kwargs name conv (spec @ [c]) (if c = CHR ''{'' then Suc n else n) cs)"

text \<open>
  \<^verbatim>\<open>build_string\<close> at a recursion depth: at depth 0 it raises (\<^verbatim>\<open>Max string recursion
  exceeded\<close>), and a format specification is expanded one level deeper than the string
  it is in. \<^verbatim>\<open>str.format\<close> starts at depth 2.
\<close>

primrec build_string ::
  "nat \<Rightarrow> builtins \<Rightarrow> (string \<Rightarrow> pyval option) \<Rightarrow> string \<Rightarrow> error + string" where
  "build_string 0 bi kwargs s = Inl ValueError"
| "build_string (Suc depth) bi kwargs s = do_markup (build_string depth bi kwargs) bi kwargs s"

definition str_format :: "builtins \<Rightarrow> (string \<Rightarrow> pyval option) \<Rightarrow> string \<Rightarrow> error + string" where
  "str_format bi kwargs s = build_string (Suc (Suc 0)) bi kwargs s"

text \<open>
  The loop of \<^verbatim>\<open>_resolve_value\<close>:
  \<^verbatim>\<open>while isinstance(res, _string_types) and not isinstance(res, Verbatim) and not res in seen:
      seen[res] = 1; res = res.format(**_parsed_values)\<close>
  with \<open>fmt\<close> for \<^verbatim>\<open>str.format\<close> on the parsed values, which do not change in the loop.
  The loop may run forever: the result is then \<open>None\<close>.
\<close>

partial_function (option) interpolate ::
  "(string \<Rightarrow> error + string) \<Rightarrow> pyval \<Rightarrow> string list \<Rightarrow> (error + pyval) option" where
  "interpolate fmt res seen =
     (if is_string res \<and> \<not> is_verbatim res \<and> chars_of res \<notin> set seen then
        (case fmt (chars_of res) of
           Inl e \<Rightarrow> Some (Inl e)
         | Inr t \<Rightarrow> interpolate fmt (PStr t) (chars_of res # seen))
      else Some (Inr res))"

text \<open>
  The examples below use values whose formatting does not ask the builtins anything;
  there the record of builtins is this one: no text, no attribute, no item.
\<close>

definition no_builtins :: builtins where
  "no_builtins =
     \<lparr>str_of = (\<lambda>v. []), repr_of = (\<lambda>v. []), ascii_of = (\<lambda>v. []),
      attr_of = (\<lambda>v name. Inl (AttributeError name)),
      item_of = (\<lambda>v i. Inl TypeError),
      format_of = (\<lambda>v spec. Inl TypeError)\<rparr>"

section \<open>Declarations\<close>

text \<open>
  A parser is any callable. \<^verbatim>\<open>_resolver\<close> compares it with the types \<^verbatim>\<open>dict\<close> and \<^verbatim>\<open>list\<close>;
  of any other callable, resolution needs what it returns or raises, and whether
  \<^verbatim>\<open>parse_none\<close> has set the attribute \<^verbatim>\<open>pykern_pkconfig_parse_none\<close> on it.
\<close>

datatype parser = DictType | ListType | Conv bool "pyval \<Rightarrow> error + pyval"

text \<open>
  What a module declares for one parameter: the 3-tuple \<^verbatim>\<open>(default, parser, docstring)\<close>
  or \<^verbatim>\<open>Required(parser, docstring)\<close>, which is the tuple \<^verbatim>\<open>(None, parser, docstring)\<close>.
\<close>

datatype param = Param pyval parser string | Required parser string

record decl =
  decl_default :: pyval
  decl_parser :: parser
  decl_docstring :: string
  decl_required :: bool

text \<open>\<^verbatim>\<open>_Declaration(value)\<close> for a value that is not a \<^verbatim>\<open>dict\<close>.\<close>

fun Declaration :: "param \<Rightarrow> decl" where
  "Declaration (Param d p doc) =
     \<lparr>decl_default = d, decl_parser = p, decl_docstring = doc, decl_required = False\<rparr>"
| "Declaration (Required p doc) =
     \<lparr>decl_default = PNone, decl_parser = p, decl_docstring = doc, decl_required = True\<rparr>"

section \<open>Resolution\<close>

text \<open>
  \<^verbatim>\<open>_resolve_value(key, decl)\<close>, reached from \<^verbatim>\<open>_resolver\<close> when the parser is neither \<^verbatim>\<open>dict\<close>
  nor \<^verbatim>\<open>list\<close>: \<open>pn\<close> is \<^verbatim>\<open>hasattr(decl.parser, _PARSE_NONE_ATTR)\<close> and \<open>conv\<close> is the call
  \<^verbatim>\<open>decl.parser(res)\<close>. The globals \<^verbatim>\<open>_raw_values\<close> and \<^verbatim>\<open>_parsed_values\<close> are arguments.
\<close>

definition resolve_value ::
  "builtins \<Rightarrow> key \<Rightarrow> decl \<Rightarrow> bool \<Rightarrow> (pyval \<Rightarrow> error + pyval) \<Rightarrow>
   pyval pydict \<Rightarrow> pyval pydict \<Rightarrow> (error + pyval) option" where
  "resolve_value bi k d pn conv raw parsed =
     (case (case getitem raw (key_str k) of
              Some v \<Rightarrow> Inr v
            | None \<Rightarrow>
                if decl_required d then Inl (MissingRequired (key_msg k))
                else Inr (decl_default d)) of
        Inl e \<Rightarrow> Some (Inl e)
      | Inr res0 \<Rightarrow>
          (case interpolate (str_format bi (getitem parsed)) res0 [] of
             None \<Rightarrow> None
           | Some (Inl e) \<Rightarrow> Some (Inl e)
           | Some (Inr res) \<Rightarrow>
               if res = PNone \<and> \<not> pn then Some (Inr PNone) else Some (conv res)))"

text \<open>
  \<^verbatim>\<open>_resolve_list(key, decl)\<close>. Values are immutable here, so \<^verbatim>\<open>copy.deepcopy\<close> is the
  identity. The message of the assertion on \<^verbatim>\<open>decl.required\<close> is formatted from the name
  \<^verbatim>\<open>k\<close>, which the function and the module do not define: evaluating the message raises
  \<^verbatim>\<open>NameError\<close> before the \<^verbatim>\<open>AssertionError\<close> is built.
\<close>

definition resolve_list :: "key \<Rightarrow> decl \<Rightarrow> pyval pydict \<Rightarrow> error + pyval" where
  "resolve_list k d raw =
     (let res = (if truthy (decl_default d) then decl_default d else PList []) in
      if \<not> is_list res then
        Inl (message [decl_default d] (DefaultNotList (key_msg k) (decl_default d)))
      else (case getitem raw (key_str k) of
              None \<Rightarrow> if decl_required d then Inl (NameError ''k'') else Inr res
            | Some v \<Rightarrow>
                if \<not> is_list v then
                  (if v = PNone then Inr PNone
                   else Inl (message [v] (MustBeList (key_msg k) v)))
                else Inr (PList (items_of v @ items_of res))))"

text \<open>
  Modelled from the spec: \<^verbatim>\<open>pkcollections.OrderedMapping\<close>, the ordered-mapping container
  of the results, is not among the sources. It is a mapping from names to values that
  keeps the order of insertion: \<^verbatim>\<open>name in r\<close> and \<^verbatim>\<open>r[name]\<close> read it, \<^verbatim>\<open>r[name] = v\<close>
  replaces the value of a name that is there and adds any other name last.
\<close>

fun om_set :: "string \<Rightarrow> pyval \<Rightarrow> (string \<times> pyval) list \<Rightarrow> (string \<times> pyval) list" where
  "om_set name v [] = [(name, v)]"
| "om_set name v ((n', v') # r) =
     (if n' = name then (n', v) # r else (n', v') # om_set name v r)"

text \<open>
  The inner part of the loop of \<^verbatim>\<open>_resolve_dict\<close> for a key of several parts: walk
  \<^verbatim>\<open>kp\<close> from \<open>r\<close>, creating the mappings that are missing, and set \<^verbatim>\<open>r[ki]\<close>.
\<close>

fun put_path ::
  "string \<Rightarrow> string list \<Rightarrow> string \<Rightarrow> pyval \<Rightarrow> (string \<times> pyval) list \<Rightarrow> error + (string \<times> pyval) list" where
  "put_path msg [] ki v r = Inr (om_set ki v r)"
| "put_path msg (k2 # kp) ki v r =
     (case map_of r k2 of
        None \<Rightarrow>
          (case put_path msg kp ki v [] of
             Inl e \<Rightarrow> Inl e
           | Inr sub \<Rightarrow> Inr (om_set k2 (PMap sub) r))
      | Some (PMap m) \<Rightarrow>
          (case put_path msg kp ki v m of
             Inl e \<Rightarrow> Inl e
           | Inr sub \<Rightarrow> Inr (om_set k2 (PMap sub) r))
      | Some x \<Rightarrow> Inl (message [x] (DictTypeCollision msg)))"

text \<open>One round of the loop of \<^verbatim>\<open>_resolve_dict\<close>, for the raw key \<open>k\<close> and its value.\<close>

definition resolve_dict_item ::
  "key \<Rightarrow> key \<times> pyval \<Rightarrow> (string \<times> pyval) list \<Rightarrow> error + (string \<times> pyval) list" where
  "resolve_dict_item ky kv res =
     (let k = fst kv; key_prefix = key_str ky @ ''_'' in
      if key_str k \<noteq> key_str ky \<and> take (length key_prefix) (key_str k) \<noteq> key_prefix
      then Inr res
      else (case key_parts k of
              None \<Rightarrow> Inl (AttributeError ''parts'')
            | Some [] \<Rightarrow> Inl IndexError
            | Some [p] \<Rightarrow> Inr (om_set (drop (length key_prefix) p) (snd kv) res)
            | Some ps \<Rightarrow>
                (case key_parts ky of
                   None \<Rightarrow> Inl (AttributeError ''parts'')
                 | Some kps \<Rightarrow>
                     put_path (key_msg k) (butlast (drop (length kps) ps)) (last ps) (snd kv) res)))"

fun resolve_dict_items ::
  "key \<Rightarrow> (key \<times> pyval) list \<Rightarrow> (string \<times> pyval) list \<Rightarrow> error + (string \<times> pyval) list" where
  "resolve_dict_items ky [] res = Inr res"
| "resolve_dict_items ky (kv # kvs) res =
     (case resolve_dict_item ky kv res of
        Inl e \<Rightarrow> Inl e
      | Inr res' \<Rightarrow> resolve_dict_items ky kvs res')"

text \<open>
  \<^verbatim>\<open>_resolve_dict(key, decl)\<close>. The result starts as \<^verbatim>\<open>OrderedMapping(default or {})\<close>;
  a default that is not a mapping cannot start one (\<open>TypeError\<close>).
\<close>

definition resolve_dict :: "key \<Rightarrow> decl \<Rightarrow> pyval pydict \<Rightarrow> error + pyval" where
  "resolve_dict ky d raw =
     (case (if truthy (decl_default d) then decl_default d else PMap []) of
        PMap m \<Rightarrow>
          (case resolve_dict_items ky (rev (sorted_items raw)) m of
             Inl e \<Rightarrow> Inl e
           | Inr res \<Rightarrow> Inr (PMap res))
      | _ \<Rightarrow> Inl TypeError)"

text \<open>\<^verbatim>\<open>_resolver(d)(k, d)\<close>: the dispatch on the parser, and the call.\<close>

definition resolver ::
  "builtins \<Rightarrow> key \<Rightarrow> decl \<Rightarrow> pyval pydict \<Rightarrow> pyval pydict \<Rightarrow> (error + pyval) option" where
  "resolver bi k d raw parsed =
     (case decl_parser d of
        DictType \<Rightarrow> Some (resolve_dict k d raw)
      | ListType \<Rightarrow> Some (resolve_list k d raw)
      | Conv pn conv \<Rightarrow> resolve_value bi k d pn conv raw parsed)"

text \<open>
  In \<^verbatim>\<open>_iter_decls\<close>, the loop \<^verbatim>\<open>for kp in k.parts[:-1]\<close> walks the result from its root and
  creates the mappings that are missing. Walking on through a value that is not a
  mapping raises \<^verbatim>\<open>TypeError\<close>; stopping at one does not, yet.
\<close>

fun descend :: "string list \<Rightarrow> (string \<times> pyval) list \<Rightarrow> error + (string \<times> pyval) list" where
  "descend [] r = Inr r"
| "descend (kp # kps) r =
     (case map_of r kp of
        None \<Rightarrow>
          (case descend kps [] of
             Inl e \<Rightarrow> Inl e
           | Inr sub \<Rightarrow> Inr (om_set kp (PMap sub) r))
      | Some (PMap m) \<Rightarrow>
          (case descend kps m of
             Inl e \<Rightarrow> Inl e
           | Inr sub \<Rightarrow> Inr (om_set kp (PMap sub) r))
      | Some _ \<Rightarrow> if kps = [] then Inr r else Inl TypeError)"

text \<open>\<^verbatim>\<open>r[kp] = v\<close> at the end of that walk: \<^verbatim>\<open>TypeError\<close> if \<open>r\<close> is not a mapping.\<close>

fun assign ::
  "string list \<Rightarrow> string \<Rightarrow> pyval \<Rightarrow> (string \<times> pyval) list \<Rightarrow> error + (string \<times> pyval) list" where
  "assign [] kp v r = Inr (om_set kp v r)"
| "assign (p # ps) kp v r =
     (case map_of r p of
        Some (PMap m) \<Rightarrow>
          (case assign ps kp v m of
             Inl e \<Rightarrow> Inl e
           | Inr sub \<Rightarrow> Inr (om_set p (PMap sub) r))
      | _ \<Rightarrow> Inl TypeError)"

text \<open>
  \<^verbatim>\<open>_iter_decls(decls, res)\<close> over \<^verbatim>\<open>sorted(decls.keys())\<close>, each key with its declaration.
  \<^verbatim>\<open>_flatten_keys\<close> stores leaves only, so no declaration is a group. The result and
  \<^verbatim>\<open>_parsed_values\<close> are updated in place in the source and returned here.
\<close>

fun iter_decls ::
  "builtins \<Rightarrow> pyval pydict \<Rightarrow> (key \<times> param) list \<Rightarrow> (string \<times> pyval) list \<Rightarrow>
   pyval pydict \<Rightarrow> (error + (string \<times> pyval) list \<times> pyval pydict) option" where
  "iter_decls bi raw [] res parsed = Some (Inr (res, parsed))"
| "iter_decls bi raw ((k, p) # rest) res parsed =
     (case key_parts k of
        None \<Rightarrow> Some (Inl (AttributeError ''parts''))
      | Some [] \<Rightarrow> Some (Inl IndexError)
      | Some parts \<Rightarrow>
          (case descend (butlast parts) res of
             Inl e \<Rightarrow> Some (Inl e)
           | Inr res1 \<Rightarrow>
               (case resolver bi k (Declaration p) raw parsed of
                  None \<Rightarrow> None
                | Some (Inl e) \<Rightarrow> Some (Inl e)
                | Some (Inr v) \<Rightarrow>
                    (case assign (butlast parts) (last parts) v res1 of
                       Inl e \<Rightarrow> Some (Inl e)
                     | Inr res2 \<Rightarrow> iter_decls bi raw rest res2 (setitem k v parsed)))))"

section \<open>The state of the module and its surroundings\<close>

text \<open>
  The module keeps its state in globals. \<^verbatim>\<open>_load_path = LOAD_PATH_DEFAULT\<close> binds both
  names to one list object, which \<^verbatim>\<open>append_load_path\<close> extends in place, so the load
  path is modelled as a reference into a store of list objects: \<open>heap\<close> maps an
  address to the list that lives there, \<open>load_path\<close> is the address that \<^verbatim>\<open>_load_path\<close>
  holds. \<^verbatim>\<open>_raw_values\<close> is \<^verbatim>\<open>None\<close> until the values are coalesced. \<^verbatim>\<open>_parsed_values\<close>
  is read only after \<^verbatim>\<open>_init_parsed_values\<close> has set it, so its initial \<^verbatim>\<open>None\<close> is the
  empty dictionary here.
\<close>

record state =
  heap :: "nat \<Rightarrow> string list"
  load_path :: nat
  raw_values :: "pyval pydict option"
  parsed_values :: "pyval pydict"
  cfg :: "pyval option"

definition THIS_PACKAGE :: string where
  "THIS_PACKAGE = ''pykern''"

definition CHANNEL_ENV_NAME :: string where
  "CHANNEL_ENV_NAME = ''PYKERN_PKCONFIG_CHANNEL''"

definition LOAD_PATH_ENV_NAME :: string where
  "LOAD_PATH_ENV_NAME = ''PYKERN_PKCONFIG_LOAD_PATH''"

definition VALID_CHANNELS :: "string list" where
  "VALID_CHANNELS = [''dev'', ''alpha'', ''beta'', ''prod'']"

definition CHANNEL_DEFAULT :: string where
  "CHANNEL_DEFAULT = ''dev''"

text \<open>The address of the list object \<^verbatim>\<open>[THIS_PACKAGE]\<close> that \<^verbatim>\<open>LOAD_PATH_DEFAULT\<close> names.\<close>

definition LOAD_PATH_DEFAULT :: nat where
  "LOAD_PATH_DEFAULT = 0"

text \<open>The state when the module has been imported.\<close>

definition initial_state :: state where
  "initial_state =
     \<lparr>heap = (\<lambda>a. [])(LOAD_PATH_DEFAULT := [THIS_PACKAGE]),
      load_path = LOAD_PATH_DEFAULT,
      raw_values = None,
      parsed_values = [],
      cfg = None\<rparr>"

text \<open>
  What the module reads from outside: \<^verbatim>\<open>os.environ\<close>; for each package, the module
  \<^verbatim>\<open><pkg>.base_pkconfig\<close> if it can be imported; for each package, the home file
  \<^verbatim>\<open>~/.<pkg>_pkconfig.py\<close> if it is there. A configuration module is given by its channel
  functions: the name of each, with the nested \<^verbatim>\<open>dict\<close> it returns.
\<close>

type_synonym config_module = "(string \<times> (string \<times> pyval nested) list) list"

record world =
  environ :: "(string \<times> string) list"
  base_pkconfig :: "(string \<times> config_module) list"
  home_pkconfig :: "(string \<times> config_module) list"

text \<open>The argument of \<^verbatim>\<open>append_load_path\<close>: a \<^verbatim>\<open>str\<close> or a \<^verbatim>\<open>list\<close> of package names.\<close>

datatype path_arg = PathStr string | PathList "string list"

text \<open>\<^verbatim>\<open>_load_path_parser(value)\<close>\<close>

fun load_path_parser :: "path_arg \<Rightarrow> string list" where
  "load_path_parser (PathStr s) = (if s = [] then [] else split CHR '':'' s)"
| "load_path_parser (PathList ps) = ps"

text \<open>
  The loop of \<^verbatim>\<open>append_load_path\<close>:
  \<^verbatim>\<open>for p in ...: if not p in _load_path: _load_path.append(p)\<close>,
  on the list object at address \<open>a\<close>.
\<close>

fun extend_list :: "nat \<Rightarrow> string list \<Rightarrow> (nat \<Rightarrow> string list) \<Rightarrow> (nat \<Rightarrow> string list)" where
  "extend_list a [] h = h"
| "extend_list a (p # ps) h =
     extend_list a ps (if p \<in> set (h a) then h else h(a := h a @ [p]))"

text \<open>\<^verbatim>\<open>if _raw_values\<close>: a dictionary is true when it is not \<^verbatim>\<open>None\<close> and not empty.\<close>

fun dict_truthy :: "'v pydict option \<Rightarrow> bool" where
  "dict_truthy None = False"
| "dict_truthy (Some d) = (d \<noteq> [])"

text \<open>
  \<^verbatim>\<open>append_load_path(load_path)\<close>. \<^verbatim>\<open>prev = _load_path\<close> copies the reference, not the
  list; \<^verbatim>\<open>prev != _load_path\<close> compares the two lists that the references point to.
\<close>

definition append_load_path :: "path_arg \<Rightarrow> state \<Rightarrow> error + state" where
  "append_load_path arg st =
     (let prev = load_path st;
          st' = st\<lparr>heap := extend_list (load_path st) (load_path_parser arg) (heap st)\<rparr>
      in if heap st' prev \<noteq> heap st' (load_path st') then
           (if dict_truthy (raw_values st') then Inl LoadPathFrozen else Inr st')
         else Inr st')"

text \<open>\<^verbatim>\<open>reset_state_for_testing()\<close>\<close>

definition reset_state_for_testing :: "state \<Rightarrow> state" where
  "reset_state_for_testing st = st\<lparr>raw_values := None\<rparr>"

text \<open>\<^verbatim>\<open>_clean_environ()\<close>: the dictionary it returns, in the order of \<^verbatim>\<open>os.environ\<close>.\<close>

definition clean_environ :: "(string \<times> string) list \<Rightarrow> (string \<times> pyval) list" where
  "clean_environ env =
     map (\<lambda>kv. (fst kv, if length (snd kv) > 0 then PStr (snd kv) else PNone))
       (filter (\<lambda>kv. KEY_RE (fst kv)) env)"

text \<open>
  \<^verbatim>\<open>_init_parsed_values(env)\<close>. The pattern is
  \<^verbatim>\<open>'^(' + '|'.join(_load_path) + ')_$'\<close>, ignoring case: for package names that are plain
  names, it finds a match in \<open>k\<close> exactly when \<open>k\<close> is a package name followed by an
  underscore (and possibly a final newline).
\<close>

definition load_path_re :: "string list \<Rightarrow> string \<Rightarrow> bool" where
  "load_path_re lp k =
     list_ex (\<lambda>p. lower k = lower (p @ ''_'') \<or> lower k = lower (p @ ''_'' @ [CHR 0x0A])) lp"

fun init_parsed_values :: "string list \<Rightarrow> (string \<times> pyval) list \<Rightarrow> pyval pydict \<Rightarrow> pyval pydict" where
  "init_parsed_values lp [] parsed = parsed"
| "init_parsed_values lp ((k, v) # env) parsed =
     init_parsed_values lp env (if \<not> load_path_re lp k then setitem (Key [k]) v parsed else parsed)"

text \<open>
  The two loops of \<^verbatim>\<open>_coalesce_values\<close> over the load path: for each package whose
  configuration module is there (the import succeeds, the home file exists), call its
  channel function and merge what it returns. A module without the channel function
  raises \<^verbatim>\<open>AttributeError\<close>.
\<close>

fun load_modules ::
  "(string \<times> config_module) list \<Rightarrow> string \<Rightarrow> string list \<Rightarrow> pyval pydict \<Rightarrow> error + pyval pydict" where
  "load_modules mods channel [] vals = Inr vals"
| "load_modules mods channel (p # ps) vals =
     (case map_of mods p of
        None \<Rightarrow> load_modules mods channel ps vals
      | Some m \<Rightarrow>
          (case map_of m channel of
             None \<Rightarrow> Inl (AttributeError channel)
           | Some new \<Rightarrow>
               (case values_flatten vals new of
                  Inl e \<Rightarrow> Inl e
                | Inr vals' \<Rightarrow> load_modules mods channel ps vals')))"

text \<open>\<^verbatim>\<open>for k in mnp: res = res[k]\<close>\<close>

fun lookup_path :: "string list \<Rightarrow> pyval \<Rightarrow> error + pyval" where
  "lookup_path [] r = Inr r"
| "lookup_path (k # ks) r =
     (case r of
        PMap m \<Rightarrow> (case map_of m k of None \<Rightarrow> Inl (KeyError k) | Some v \<Rightarrow> lookup_path ks v)
      | _ \<Rightarrow> Inl TypeError)"

text \<open>
  Modelled from the spec: \<^verbatim>\<open>pkinspect.root_package\<close> is not among the sources; the root
  package of a module is the first segment of its dotted name.
\<close>

definition root_package :: "string \<Rightarrow> string" where
  "root_package m = takeWhile (\<lambda>c. c \<noteq> CHR ''.'') m"

text \<open>
  \<^verbatim>\<open>init(**kwargs)\<close> for the calling module \<open>m\<close> (its dotted name), after the test for
  \<^verbatim>\<open>__main__\<close>. \<open>coalesce\<close> is the call of \<^verbatim>\<open>_coalesce_values()\<close>.
\<close>

definition init_module ::
  "(state \<Rightarrow> (error + state) option) \<Rightarrow> builtins \<Rightarrow> string \<Rightarrow>
   (string \<times> param nested) list \<Rightarrow> state \<Rightarrow> (error + pyval \<times> state) option" where
  "init_module coalesce bi m kwargs st =
     (let mnp = split CHR ''.'' m in
      if root_package m \<notin> set (heap st (load_path st)) then Some (Inl (RootNotInLoadPath m))
      else (case flatten_keys [] (foldr (\<lambda>k kw. [(k, Dict kw)]) mnp kwargs) [] of
              Inl e \<Rightarrow> Some (Inl e)
            | Inr decls \<Rightarrow>
                (case coalesce st of
                   None \<Rightarrow> None
                 | Some (Inl e) \<Rightarrow> Some (Inl e)
                 | Some (Inr st1) \<Rightarrow>
                     (case raw_values st1 of
                        None \<Rightarrow> Some (Inl TypeError)
                      | Some raw \<Rightarrow>
                          (case iter_decls bi raw (sorted_items decls) [] (parsed_values st1) of
                             None \<Rightarrow> None
                           | Some (Inl e) \<Rightarrow> Some (Inl e)
                           | Some (Inr (res, parsed)) \<Rightarrow>
                               (case lookup_path mnp (PMap res) of
                                  Inl e \<Rightarrow> Some (Inl e)
                                | Inr r \<Rightarrow> Some (Inr (r, st1\<lparr>parsed_values := parsed\<rparr>))))))))"

text \<open>
  \<^verbatim>\<open>_coalesce_values()\<close>. Its last step is \<^verbatim>\<open>init\<close> for the module itself; the call of
  \<^verbatim>\<open>_coalesce_values()\<close> in there returns at once, since \<^verbatim>\<open>_raw_values\<close> now holds the two
  bindings of the channel and the load path.
\<close>

definition coalesce_values :: "builtins \<Rightarrow> world \<Rightarrow> state \<Rightarrow> (error + state) option" where
  "coalesce_values bi w st =
     (if dict_truthy (raw_values st) then Some (Inr st)
      else
        (case append_load_path
                (case map_of (environ w) LOAD_PATH_ENV_NAME of
                   Some s \<Rightarrow> PathStr s
                 | None \<Rightarrow> PathList (heap st LOAD_PATH_DEFAULT)) st of
           Inl e \<Rightarrow> Some (Inl e)
         | Inr st1 \<Rightarrow>
             (let channel = (case map_of (environ w) CHANNEL_ENV_NAME of
                               Some c \<Rightarrow> c
                             | None \<Rightarrow> CHANNEL_DEFAULT);
                  lp = heap st1 (load_path st1);
                  env = clean_environ (environ w)
              in if channel \<notin> set VALID_CHANNELS then Some (Inl (InvalidChannel channel))
                 else
                   (case load_modules (base_pkconfig w) channel lp [] of
                      Inl e \<Rightarrow> Some (Inl e)
                    | Inr vals1 \<Rightarrow>
                        (case load_modules (home_pkconfig w) channel lp vals1 of
                           Inl e \<Rightarrow> Some (Inl e)
                         | Inr vals2 \<Rightarrow>
                             (case values_flatten vals2 (map (\<lambda>kv. (fst kv, Leaf (snd kv))) env) of
                                Inl e \<Rightarrow> Some (Inl e)
                              | Inr vals3 \<Rightarrow>
                                  (case init_module (\<lambda>s. Some (Inr s)) bi ''pykern.pkconfig''
                                          [(''load_path'', Leaf (Required ListType ''list of packages to configure'')),
                                           (''channel'', Leaf (Required (Conv False (py_str bi))
                                              ''which (stage) function returns config''))]
                                          (st1\<lparr>raw_values :=
                                                 Some (setitem (StrKey LOAD_PATH_ENV_NAME) (PList (map PStr lp))
                                                        (setitem (StrKey CHANNEL_ENV_NAME) (PStr channel) vals3)),
                                               parsed_values := init_parsed_values lp env []\<rparr>) of
                                     None \<Rightarrow> None
                                   | Some (Inl e) \<Rightarrow> Some (Inl e)
                                   | Some (Inr (c, st2)) \<Rightarrow> Some (Inr (st2\<lparr>cfg := Some c\<rparr>)))))))))"

text \<open>
  \<^verbatim>\<open>init(**kwargs)\<close>, called by the module \<open>caller\<close>: \<open>None\<close> when the caller is
  \<^verbatim>\<open>__main__\<close>, for which \<^verbatim>\<open>init\<close> prints a warning and returns \<^verbatim>\<open>None\<close>.
\<close>

definition init ::
  "builtins \<Rightarrow> world \<Rightarrow> string option \<Rightarrow> (string \<times> param nested) list \<Rightarrow> state \<Rightarrow>
   (error + pyval \<times> state) option" where
  "init bi w caller kwargs st =
     (case caller of
        None \<Rightarrow> Some (Inr (PNone, st))
      | Some m \<Rightarrow> init_module (coalesce_values bi w) bi m kwargs st)"

section \<open>Evaluation\<close>

lemma key_str_Key: "key_str (Key ps) = map upper_char (join ''_'' ps)"
  by (simp add: upper_def)

lemma interpolate_stop:
  "\<not> (is_string res \<and> \<not> is_verbatim res \<and> chars_of res \<notin> set seen) \<Longrightarrow>
   interpolate fmt res seen = Some (Inr res)"
  by (subst interpolate.simps) auto

section \<open>Dictionaries, flattening and merging\<close>

lemma getitem_map_of:
  "getitem d s = map_of (map (\<lambda>kv. (key_str (fst kv), snd kv)) d) s"
  by (induction d) auto

lemma getitem_setitem:
  "getitem (setitem k v d) s = (if s = key_str k then Some v else getitem d s)"
  by (induction d) auto

lemma getitem_None_iff:
  "getitem d s = None \<longleftrightarrow> s \<notin> set (map (\<lambda>kv. key_str (fst kv)) d)"
  by (simp add: getitem_map_of map_of_eq_None_iff image_image)

lemma setitem_absent: "getitem d (key_str k) = None \<Longrightarrow> setitem k v d = d @ [(k, v)]"
  by (induction d) (auto split: if_splits)

lemma getitem_distinct:
  assumes "distinct (map (\<lambda>kv. key_str (fst kv)) d)" and "(k, v) \<in> set d"
  shows "getitem d (key_str k) = Some v"
proof -
  have "distinct (map fst (map (\<lambda>kv. (key_str (fst kv), snd kv)) d))"
    using assms(1) by (simp add: comp_def)
  moreover have "(key_str k, v) \<in> set (map (\<lambda>kv. (key_str (fst kv), snd kv)) d)"
    using assms(2) by force
  ultimately show ?thesis
    unfolding getitem_map_of by (rule map_of_is_SomeI)
qed

lemma getitem_in_set:
  assumes "getitem d s = Some v"
  shows "\<exists>k. (k, v) \<in> set d \<and> key_str k = s"
proof -
  have "(s, v) \<in> set (map (\<lambda>kv. (key_str (fst kv), snd kv)) d)"
    using assms unfolding getitem_map_of by (rule map_of_SomeD)
  then show ?thesis by auto
qed

lemma flatten_keys_Leaf:
  "flatten_keys kp ((name, Leaf v) # rest) res = Inr res' \<Longrightarrow>
   KEY_RE (key_str (Key (kp @ split CHR ''.'' name))) \<and>
   getitem res (key_str (Key (kp @ split CHR ''.'' name))) = None \<and>
   flatten_keys kp rest (setitem (Key (kp @ split CHR ''.'' name)) v res) = Inr res'"
  by (simp add: Let_def split: if_splits)

lemma flatten_keys_Dict:
  "flatten_keys kp ((name, Dict d) # rest) res = Inr res' \<Longrightarrow>
   KEY_RE (key_str (Key (kp @ split CHR ''.'' name))) \<and>
   getitem res (key_str (Key (kp @ split CHR ''.'' name))) = None \<and>
   (\<exists>r1. flatten_keys (kp @ split CHR ''.'' name) d res = Inr r1 \<and> flatten_keys kp rest r1 = Inr res')"
  by (simp add: Let_def split: if_splits sum.splits)

lemma flatten_keys_distinct:
  "flatten_keys kp vs res = Inr res' \<Longrightarrow> distinct (map (\<lambda>kv. key_str (fst kv)) res) \<Longrightarrow>
   distinct (map (\<lambda>kv. key_str (fst kv)) res')"
proof (induction kp vs res arbitrary: res' rule: flatten_keys.induct)
  case (1 kp res)
  then show ?case by simp
next
  case (2 kp name d rest res)
  let ?k = "Key (kp @ split CHR ''.'' name)"
  from flatten_keys_Dict[OF 2(3)] obtain r1 where
    ok: "KEY_RE (key_str ?k)" and absent: "getitem res (key_str ?k) = None" and
    r1: "flatten_keys (kp @ split CHR ''.'' name) d res = Inr r1" and
    r2: "flatten_keys kp rest r1 = Inr res'"
    by blast
  have nn: "\<not> \<not> KEY_RE (key_str ?k)" using ok by blast
  have na: "\<not> getitem res (key_str ?k) \<noteq> None" using absent by blast
  have d1: "distinct (map (\<lambda>kv. key_str (fst kv)) r1)"
    by (rule 2(1)[OF refl nn na r1 2(4)])
  show ?case by (rule 2(2)[OF refl nn na r1 r2 d1])
next
  case (3 kp name v rest res)
  let ?k = "Key (kp @ split CHR ''.'' name)"
  from flatten_keys_Leaf[OF 3(2)] have
    ok: "KEY_RE (key_str ?k)" and absent: "getitem res (key_str ?k) = None" and
    rec: "flatten_keys kp rest (setitem ?k v res) = Inr res'"
    by blast+
  have nn: "\<not> \<not> KEY_RE (key_str ?k)" using ok by blast
  have na: "\<not> getitem res (key_str ?k) \<noteq> None" using absent by blast
  have "key_str ?k \<notin> set (map (\<lambda>kv. key_str (fst kv)) res)"
    using absent[unfolded getitem_None_iff] .
  then have d1: "distinct (map (\<lambda>kv. key_str (fst kv)) (setitem ?k v res))"
    using 3(3) by (simp add: setitem_absent[OF absent])
  show ?case by (rule 3(1)[OF refl nn na rec d1])
qed

lemma sorted_items_distinct:
  "distinct (map (\<lambda>kv. key_str (fst kv)) d) \<Longrightarrow> distinct (map (\<lambda>kv. key_str (fst kv)) (sorted_items d))"
  by (simp add: sorted_items_def distinct_map)

lemma getitem_sorted_items:
  assumes "distinct (map (\<lambda>kv. key_str (fst kv)) d)"
  shows "getitem (sorted_items d) s = getitem d s"
proof (cases "getitem d s")
  case None
  have "s \<notin> set (map (\<lambda>kv. key_str (fst kv)) d)"
    using None[unfolded getitem_None_iff] .
  then have "s \<notin> set (map (\<lambda>kv. key_str (fst kv)) (sorted_items d))"
    by (simp add: sorted_items_def)
  then have "getitem (sorted_items d) s = None"
    unfolding getitem_None_iff .
  then show ?thesis using None by (simp only:)
next
  case (Some v)
  obtain k where k: "(k, v) \<in> set d" "key_str k = s"
    using getitem_in_set[OF Some] by blast
  have "(k, v) \<in> set (sorted_items d)"
    using k(1) by (simp add: sorted_items_def)
  from getitem_distinct[OF sorted_items_distinct[OF assms] this]
  have "getitem (sorted_items d) s = Some v" unfolding k(2) .
  then show ?thesis using Some by (simp only:)
qed

lemma merge_item_absent:
  "getitem base (key_str k) = None \<Longrightarrow> merge_item base (k, n) = Inr (setitem k n base)"
  by (simp add: merge_item_def)

lemma merge_item_present:
  "getitem base (key_str k) = Some b \<Longrightarrow>
   merge_item base (k, n) =
     (if is_list b \<and> is_list n then Inr (setitem k (PList (items_of n @ items_of b)) base)
      else if is_list b \<noteq> is_list n \<and> b \<noteq> PNone \<and> n \<noteq> PNone
           then Inl (message [n, b] (TypeMismatch (key_msg k) n b))
           else Inr (setitem k n base))"
  by (cases b; cases n; simp add: merge_item_def Let_def)

lemma merge_item_getitem:
  assumes "merge_item base (k, n) = Inr base'"
  shows "getitem base' s =
     (if s = key_str k
      then Some (case getitem base s of
                   None \<Rightarrow> n
                 | Some b \<Rightarrow> if is_list b \<and> is_list n then PList (items_of n @ items_of b) else n)
      else getitem base s)"
proof (cases "getitem base (key_str k)")
  case None
  with assms have "base' = setitem k n base" by (simp add: merge_item_absent)
  then show ?thesis using None by (simp add: getitem_setitem)
next
  case (Some b)
  show ?thesis
  proof (cases "is_list b \<and> is_list n")
    case True
    with assms Some have "base' = setitem k (PList (items_of n @ items_of b)) base"
      by (simp add: merge_item_present)
    then show ?thesis using Some True by (simp add: getitem_setitem)
  next
    case False
    with assms Some have "base' = setitem k n base"
      by (simp add: merge_item_present split: if_splits)
    then show ?thesis using Some False by (auto simp add: getitem_setitem)
  qed
qed

lemma merge_items_result:
  "distinct (map (\<lambda>kv. key_str (fst kv)) kns) \<Longrightarrow> merge_items base kns = Inr base' \<Longrightarrow>
   getitem base' s =
     (case getitem kns s of
        None \<Rightarrow> getitem base s
      | Some n \<Rightarrow>
          Some (case getitem base s of
                  None \<Rightarrow> n
                | Some b \<Rightarrow> if is_list b \<and> is_list n then PList (items_of n @ items_of b) else n))"
proof (induction kns arbitrary: base)
  case Nil
  then show ?case by simp
next
  case (Cons kn kns)
  obtain k n' where kn: "kn = (k, n')" by (cases kn)
  from Cons.prems(2) kn obtain b1 where b1: "merge_item base (k, n') = Inr b1"
      and rest: "merge_items b1 kns = Inr base'"
    by (auto split: sum.splits)
  have d: "distinct (map (\<lambda>kv. key_str (fst kv)) kns)"
    and notin: "key_str k \<notin> set (map (\<lambda>kv. key_str (fst kv)) kns)"
    using Cons.prems(1) kn by auto
  note IH = Cons.IH[OF d rest]
  show ?case
  proof (cases "key_str k = s")
    case True
    have "getitem kns s = None" using notin True by (simp add: getitem_None_iff)
    then have "getitem base' s = getitem b1 s" using IH by simp
    also have "\<dots> = Some (case getitem base s of
                  None \<Rightarrow> n'
                | Some b \<Rightarrow> if is_list b \<and> is_list n' then PList (items_of n' @ items_of b) else n')"
      using merge_item_getitem[OF b1, of s] True by simp
    finally show ?thesis using True kn by simp
  next
    case False
    have eq: "getitem b1 s = getitem base s"
      using merge_item_getitem[OF b1, of s] False by auto
    have "getitem (kn # kns) s = getitem kns s" using False kn by simp
    then show ?thesis using IH unfolding eq by (simp only:)
  qed
qed

lemma merge_items_success:
  "distinct (map (\<lambda>kv. key_str (fst kv)) kns) \<Longrightarrow>
   (\<And>s n b. getitem kns s = Some n \<Longrightarrow> getitem base s = Some b \<Longrightarrow>
      \<not> (is_list b \<noteq> is_list n \<and> b \<noteq> PNone \<and> n \<noteq> PNone)) \<Longrightarrow>
   \<exists>base'. merge_items base kns = Inr base'"
proof (induction kns arbitrary: base)
  case Nil
  then show ?case by simp
next
  case (Cons kn kns)
  obtain k n' where kn: "kn = (k, n')" by (cases kn)
  have d: "distinct (map (\<lambda>kv. key_str (fst kv)) kns)"
    and notin: "key_str k \<notin> set (map (\<lambda>kv. key_str (fst kv)) kns)"
    using Cons.prems(1) kn by auto
  have "\<exists>b1. merge_item base (k, n') = Inr b1"
  proof (cases "getitem base (key_str k)")
    case None
    then show ?thesis by (simp add: merge_item_absent)
  next
    case (Some b)
    have "getitem (kn # kns) (key_str k) = Some n'" using kn by simp
    from Cons.prems(2)[OF this Some] show ?thesis
      unfolding merge_item_present[OF Some] by auto
  qed
  then obtain b1 where b1: "merge_item base (k, n') = Inr b1" by blast
  have "\<exists>base'. merge_items b1 kns = Inr base'"
  proof (rule Cons.IH[OF d])
    fix s n b
    assume g: "getitem kns s = Some n" and gb: "getitem b1 s = Some b"
    have "s \<in> set (map (\<lambda>kv. key_str (fst kv)) kns)"
      using g getitem_None_iff[of kns s] by auto
    then have ne: "key_str k \<noteq> s" using notin by auto
    have "getitem (kn # kns) s = Some n" using g ne kn by simp
    moreover have "getitem base s = Some b"
      using merge_item_getitem[OF b1, of s] ne gb by auto
    ultimately show "\<not> (is_list b \<noteq> is_list n \<and> b \<noteq> PNone \<and> n \<noteq> PNone)"
      by (rule Cons.prems(2))
  qed
  then show ?case using b1 kn by simp
qed

lemma merge_items_collision:
  "distinct (map (\<lambda>kv. key_str (fst kv)) kns) \<Longrightarrow> getitem kns s = Some n \<Longrightarrow>
   getitem base s = Some b \<Longrightarrow> is_list b \<noteq> is_list n \<Longrightarrow> b \<noteq> PNone \<Longrightarrow> n \<noteq> PNone \<Longrightarrow>
   \<exists>k n b. (k, n) \<in> set kns \<and> getitem base (key_str k) = Some b \<and>
     is_list b \<noteq> is_list n \<and> b \<noteq> PNone \<and> n \<noteq> PNone \<and>
     merge_items base kns = Inl (message [n, b] (TypeMismatch (key_msg k) n b))"
proof (induction kns arbitrary: base)
  case Nil
  then show ?case by simp
next
  case (Cons kn kns)
  obtain k n' where kn: "kn = (k, n')" by (cases kn)
  have d: "distinct (map (\<lambda>kv. key_str (fst kv)) kns)"
    and notin: "key_str k \<notin> set (map (\<lambda>kv. key_str (fst kv)) kns)"
    using Cons.prems(1) kn by auto
  show ?case
  proof (cases "merge_item base (k, n')")
    case (Inl e)
    then obtain b0 where b0: "getitem base (key_str k) = Some b0"
      by (cases "getitem base (key_str k)") (simp_all add: merge_item_absent)
    from Inl have c: "is_list b0 \<noteq> is_list n' \<and> b0 \<noteq> PNone \<and> n' \<noteq> PNone"
      and e: "e = message [n', b0] (TypeMismatch (key_msg k) n' b0)"
      unfolding merge_item_present[OF b0] by (auto split: if_splits)
    have "merge_items base (kn # kns) = Inl (message [n', b0] (TypeMismatch (key_msg k) n' b0))"
      using Inl e kn by simp
    moreover have "(k, n') \<in> set (kn # kns)" using kn by simp
    ultimately show ?thesis using b0 c by blast
  next
    case (Inr b1)
    have ne: "key_str k \<noteq> s"
    proof
      assume eq: "key_str k = s"
      then have n': "n' = n" using Cons.prems(2) kn by simp
      have "getitem base (key_str k) = Some b" using Cons.prems(3) eq by simp
      from merge_item_present[OF this, of n]
      have "merge_item base (k, n) = Inl (message [n, b] (TypeMismatch (key_msg k) n b))"
        using Cons.prems(4-6) by auto
      then show False using Inr n' by simp
    qed
    then have g: "getitem kns s = Some n" using Cons.prems(2) kn by simp
    have "getitem b1 s = Some b"
      using merge_item_getitem[OF Inr, of s] ne Cons.prems(3) by auto
    from Cons.IH[OF d g this Cons.prems(4-6)] obtain k2 n2 b2 where
      in2: "(k2, n2) \<in> set kns" and g2: "getitem b1 (key_str k2) = Some b2" and
      c2: "is_list b2 \<noteq> is_list n2 \<and> b2 \<noteq> PNone \<and> n2 \<noteq> PNone" and
      m2: "merge_items b1 kns = Inl (message [n2, b2] (TypeMismatch (key_msg k2) n2 b2))"
      by blast
    have "key_str k2 \<in> set (map (\<lambda>kv. key_str (fst kv)) kns)" using in2 by force
    then have "key_str k2 \<noteq> key_str k" using notin by metis
    then have "getitem base (key_str k2) = Some b2"
      using merge_item_getitem[OF Inr, of "key_str k2"] g2 by auto
    moreover have "merge_items base (kn # kns) =
        Inl (message [n2, b2] (TypeMismatch (key_msg k2) n2 b2))"
      using Inr m2 kn by simp
    moreover have "(k2, n2) \<in> set (kn # kns)" using in2 by simp
    ultimately show ?thesis using c2 by blast
  qed
qed

lemmas eval_keys =
  upper_def upper_char_def lower_def lower_char_def lower_letters_def upper_letters_def digits_def
  KEY_RE_def key_pattern_def is_alpha_def is_alnum_def

section \<open>Merging one source into the raw values\<close>

text \<open>
  C1, as the code has it. The new source flattens to \<open>new_values\<close>. A key \<open>s\<close> that
  the new source and the accumulated values both hold, with new value \<open>n\<close> and old
  value \<open>b\<close>, collides when exactly one of the two is a list and the other is neither
  a list nor \<^verbatim>\<open>None\<close>. If some key collides, the merge fails at such a key with the
  error of its raise statement: the type mismatch, or the error of \<^verbatim>\<open>Verbatim.__format__\<close>
  when one of the two values is a \<^verbatim>\<open>Verbatim\<close> and cannot be shown in the message. If no
  key collides, the merge succeeds, and in its result every key of the new source
  holds \<open>n\<close> followed by \<open>b\<close> when both are lists and \<open>n\<close> in every other case, and
  every other key holds what it held. So a new \<^verbatim>\<open>None\<close> clears the value, and an old
  \<^verbatim>\<open>None\<close> is replaced by the new value like any other old value.
\<close>

theorem values_flatten_merge:
  assumes "flatten_keys [] new [] = Inr new_values"
  shows "if \<exists>s n b. getitem new_values s = Some n \<and> getitem base s = Some b \<and>
              is_list b \<noteq> is_list n \<and> b \<noteq> PNone \<and> n \<noteq> PNone
         then \<exists>k n b. (k, n) \<in> set new_values \<and> getitem base (key_str k) = Some b \<and>
                is_list b \<noteq> is_list n \<and> b \<noteq> PNone \<and> n \<noteq> PNone \<and>
                values_flatten base new = Inl (message [n, b] (TypeMismatch (key_msg k) n b))
         else \<exists>base'. values_flatten base new = Inr base' \<and>
                (\<forall>s. getitem base' s =
                   (case getitem new_values s of
                      None \<Rightarrow> getitem base s
                    | Some n \<Rightarrow>
                        Some (case getitem base s of
                                None \<Rightarrow> n
                              | Some b \<Rightarrow>
                                  if is_list b \<and> is_list n then PList (items_of n @ items_of b)
                                  else n)))"
proof -
  have d: "distinct (map (\<lambda>kv. key_str (fst kv)) new_values)"
    using flatten_keys_distinct[OF assms(1)] by simp
  have ds: "distinct (map (\<lambda>kv. key_str (fst kv)) (sorted_items new_values))"
    by (rule sorted_items_distinct[OF d])
  have g: "getitem (sorted_items new_values) s = getitem new_values s" for s
    by (rule getitem_sorted_items[OF d])
  have vf: "values_flatten base new = merge_items base (sorted_items new_values)"
    using assms(1) by (simp add: values_flatten_def)
  show ?thesis
  proof (cases "\<exists>s n b. getitem new_values s = Some n \<and> getitem base s = Some b \<and>
              is_list b \<noteq> is_list n \<and> b \<noteq> PNone \<and> n \<noteq> PNone")
    case True
    then obtain s n b where "getitem (sorted_items new_values) s = Some n" "getitem base s = Some b"
        "is_list b \<noteq> is_list n" "b \<noteq> PNone" "n \<noteq> PNone"
      unfolding g by blast
    from merge_items_collision[OF ds this] obtain k n b where
      "(k, n) \<in> set (sorted_items new_values)" "getitem base (key_str k) = Some b"
      "is_list b \<noteq> is_list n \<and> b \<noteq> PNone \<and> n \<noteq> PNone"
      "merge_items base (sorted_items new_values) = Inl (message [n, b] (TypeMismatch (key_msg k) n b))"
      by blast
    moreover from this(1) have "(k, n) \<in> set new_values" by (simp add: sorted_items_def)
    ultimately have "\<exists>k n b. (k, n) \<in> set new_values \<and> getitem base (key_str k) = Some b \<and>
                is_list b \<noteq> is_list n \<and> b \<noteq> PNone \<and> n \<noteq> PNone \<and>
                values_flatten base new = Inl (message [n, b] (TypeMismatch (key_msg k) n b))"
      unfolding vf by blast
    then show ?thesis using True by (simp only: if_True)
  next
    case False
    have "\<exists>base'. merge_items base (sorted_items new_values) = Inr base'"
    proof (rule merge_items_success[OF ds])
      fix s n b
      assume "getitem (sorted_items new_values) s = Some n" "getitem base s = Some b"
      then show "\<not> (is_list b \<noteq> is_list n \<and> b \<noteq> PNone \<and> n \<noteq> PNone)"
        using False unfolding g by blast
    qed
    then obtain base' where b': "merge_items base (sorted_items new_values) = Inr base'" by blast
    have "getitem base' s =
        (case getitem new_values s of
           None \<Rightarrow> getitem base s
         | Some n \<Rightarrow>
             Some (case getitem base s of
                     None \<Rightarrow> n
                   | Some b \<Rightarrow>
                       if is_list b \<and> is_list n then PList (items_of n @ items_of b) else n))" for s
      using merge_items_result[OF ds b', of s] unfolding g .
    then have "\<exists>base'. values_flatten base new = Inr base' \<and>
                (\<forall>s. getitem base' s =
                   (case getitem new_values s of
                      None \<Rightarrow> getitem base s
                    | Some n \<Rightarrow>
                        Some (case getitem base s of
                                None \<Rightarrow> n
                              | Some b \<Rightarrow>
                                  if is_list b \<and> is_list n then PList (items_of n @ items_of b)
                                  else n)))"
      unfolding vf using b' by blast
    then show ?thesis using False by (simp only: if_False)
  qed
qed

theorem values_flatten_merge_witness:
  "flatten_keys []
     [(''pkg'', Dict [(''items'', Leaf (PList [PStr ''n1''])), (''name'', Leaf (PStr ''new'')),
                      (''opts'', Leaf PNone), (''hosts'', Leaf (PList [PStr ''h1''])),
                      (''extra'', Leaf (PStr ''e''))])] [] =
     Inr [(Key [''pkg'', ''items''], PList [PStr ''n1'']), (Key [''pkg'', ''name''], PStr ''new''),
          (Key [''pkg'', ''opts''], PNone), (Key [''pkg'', ''hosts''], PList [PStr ''h1'']),
          (Key [''pkg'', ''extra''], PStr ''e'')] \<and>
   (\<exists>base'.
      values_flatten
        [(Key [''pkg'', ''items''], PList [PStr ''b1'']), (Key [''pkg'', ''name''], PStr ''old''),
         (Key [''pkg'', ''opts''], PList [PStr ''o1'']), (Key [''pkg'', ''hosts''], PNone),
         (Key [''pkg'', ''keep''], PStr ''k'')]
        [(''pkg'', Dict [(''items'', Leaf (PList [PStr ''n1''])), (''name'', Leaf (PStr ''new'')),
                         (''opts'', Leaf PNone), (''hosts'', Leaf (PList [PStr ''h1''])),
                         (''extra'', Leaf (PStr ''e''))])] = Inr base' \<and>
      getitem base' ''PKG_ITEMS'' = Some (PList [PStr ''n1'', PStr ''b1'']) \<and>
      getitem base' ''PKG_NAME'' = Some (PStr ''new'') \<and>
      getitem base' ''PKG_OPTS'' = Some PNone \<and>
      getitem base' ''PKG_HOSTS'' = Some (PList [PStr ''h1'']) \<and>
      getitem base' ''PKG_EXTRA'' = Some (PStr ''e'') \<and>
      getitem base' ''PKG_KEEP'' = Some (PStr ''k''))"
proof -
  let ?new = "[(''pkg'', Dict [(''items'', Leaf (PList [PStr ''n1''])), (''name'', Leaf (PStr ''new'')),
                      (''opts'', Leaf PNone), (''hosts'', Leaf (PList [PStr ''h1''])),
                      (''extra'', Leaf (PStr ''e''))])]"
  let ?nv = "[(Key [''pkg'', ''items''], PList [PStr ''n1'']), (Key [''pkg'', ''name''], PStr ''new''),
          (Key [''pkg'', ''opts''], PNone), (Key [''pkg'', ''hosts''], PList [PStr ''h1'']),
          (Key [''pkg'', ''extra''], PStr ''e'')]"
  let ?base = "[(Key [''pkg'', ''items''], PList [PStr ''b1'']), (Key [''pkg'', ''name''], PStr ''old''),
         (Key [''pkg'', ''opts''], PList [PStr ''o1'']), (Key [''pkg'', ''hosts''], PNone),
         (Key [''pkg'', ''keep''], PStr ''k'')]"
  have f: "flatten_keys [] ?new [] = Inr ?nv"
    by (simp add: eval_keys)
  have nc: "\<not> (\<exists>s n b. getitem ?nv s = Some n \<and> getitem ?base s = Some b \<and>
              is_list b \<noteq> is_list n \<and> b \<noteq> PNone \<and> n \<noteq> PNone)"
    by (auto simp add: eval_keys split: if_splits)
  from values_flatten_merge[OF f, of ?base] obtain base' where
    v: "values_flatten ?base ?new = Inr base'" and
    r: "\<And>s. getitem base' s =
         (case getitem ?nv s of
            None \<Rightarrow> getitem ?base s
          | Some n \<Rightarrow>
              Some (case getitem ?base s of
                      None \<Rightarrow> n
                    | Some b \<Rightarrow>
                        if is_list b \<and> is_list n then PList (items_of n @ items_of b) else n))"
    unfolding if_not_P[OF nc] by blast
  have "getitem base' ''PKG_ITEMS'' = Some (PList [PStr ''n1'', PStr ''b1''])"
    by (simp add: r eval_keys)
  moreover have "getitem base' ''PKG_NAME'' = Some (PStr ''new'')"
    by (simp add: r eval_keys)
  moreover have "getitem base' ''PKG_OPTS'' = Some PNone"
    by (simp add: r eval_keys)
  moreover have "getitem base' ''PKG_HOSTS'' = Some (PList [PStr ''h1''])"
    by (simp add: r eval_keys)
  moreover have "getitem base' ''PKG_EXTRA'' = Some (PStr ''e'')"
    by (simp add: r eval_keys)
  moreover have "getitem base' ''PKG_KEEP'' = Some (PStr ''k'')"
    by (simp add: r eval_keys)
  ultimately show ?thesis using f v by blast
qed

text \<open>
  The claim says that a \<^verbatim>\<open>None\<close> on either side leaves \<^verbatim>\<open>None\<close>. With \<^verbatim>\<open>None\<close> as the old
  value and a list as the new one, the result is the new list.
\<close>

theorem values_flatten_old_None_counterexample:
  "values_flatten [(Key [''pkg'', ''items''], PNone)]
     [(''pkg'', Dict [(''items'', Leaf (PList [PStr ''c1'']))])] =
   Inr [(Key [''pkg'', ''items''], PList [PStr ''c1''])]"
  by (simp add: values_flatten_def sorted_items_def merge_item_def eval_keys)

text \<open>
  A list against a \<^verbatim>\<open>Verbatim\<close> collides, and the error raised is that of formatting
  the \<^verbatim>\<open>Verbatim\<close> for the message.
\<close>

lemma values_flatten_verbatim_collision:
  "values_flatten [(Key [''pkg'', ''items''], PList [PStr ''b1''])]
     [(''pkg'', Dict [(''items'', Leaf (PVerbatim ''{x}''))])] = Inl (VerbatimFormat ''{x}'')"
  by (simp add: values_flatten_def sorted_items_def merge_item_def message_def eval_keys)

section \<open>Facts about string interpolation\<close>

lemma emit_Nil: "emit [] r = r"
  by (cases r) (simp_all add: emit_def)

lemma emit_emit: "emit s (emit t r) = emit (s @ t) r"
  by (cases r) (simp_all add: emit_def)

lemma emit_Inr_iff: "emit s r = Inr t \<longleftrightarrow> (\<exists>u. r = Inr u \<and> t = s @ u)"
  by (cases r) (auto simp: emit_def)

text \<open>
  Formatting reads from the left: a format string that formats to \<open>t\<close> contributes
  \<open>t\<close> to whatever string it starts.
\<close>

lemma do_markup_append:
  "do_markup ex bi kw pre = Inr t \<Longrightarrow>
     do_markup ex bi kw (pre @ rest) = emit t (do_markup ex bi kw rest)"
  "parse_field ex bi kw name pre = Inr t \<Longrightarrow>
     parse_field ex bi kw name (pre @ rest) = emit t (do_markup ex bi kw rest)"
  "parse_index ex bi kw name pre = Inr t \<Longrightarrow>
     parse_index ex bi kw name (pre @ rest) = emit t (do_markup ex bi kw rest)"
  "parse_conversion ex bi kw name pre = Inr t \<Longrightarrow>
     parse_conversion ex bi kw name (pre @ rest) = emit t (do_markup ex bi kw rest)"
  "parse_spec ex bi kw name conv spec n pre = Inr t \<Longrightarrow>
     parse_spec ex bi kw name conv spec n (pre @ rest) = emit t (do_markup ex bi kw rest)"
proof (induction ex bi kw pre and ex bi kw name pre and ex bi kw name pre and ex bi kw name pre
    and ex bi kw name conv spec n pre arbitrary: t and t and t and t and t
    rule: do_markup_parse_field_parse_index_parse_conversion_parse_spec.induct)
  case (1 ex bi kwargs)
  then show ?case by (simp add: emit_Nil)
next
  case (2 ex bi kwargs c)
  then show ?case by (cases rest) (auto simp: emit_def split: if_splits)
next
  case (3 ex bi kwargs c d ds)
  note prem = 3(5)
  show ?case
  proof (cases "c = CHR ''{''")
    case True
    show ?thesis
    proof (cases "d = CHR ''{''")
      case dT: True
      from prem True dT obtain u where u: "do_markup ex bi kwargs ds = Inr u" "t = [c] @ u"
        by (auto simp: emit_Inr_iff)
      from 3(1)[OF True dT u(1)] show ?thesis using True dT u(2) by (simp add: emit_emit)
    next
      case dF: False
      from prem True dF have "parse_field ex bi kwargs [] (d # ds) = Inr t" by simp
      from 3(2)[OF True dF this] show ?thesis using True dF by simp
    qed
  next
    case False
    show ?thesis
    proof (cases "c = CHR ''}''")
      case cT: True
      with prem False have dT: "d = CHR ''}''" by (auto split: if_splits)
      from prem False cT dT obtain u where u: "do_markup ex bi kwargs ds = Inr u" "t = [c] @ u"
        by (auto simp: emit_Inr_iff)
      from 3(3)[OF False cT dT u(1)] show ?thesis using False cT dT u(2) by (simp add: emit_emit)
    next
      case cF: False
      from prem False cF obtain u where u: "do_markup ex bi kwargs (d # ds) = Inr u" "t = [c] @ u"
        by (auto simp: emit_Inr_iff)
      from 3(4)[OF False cF u(1)] show ?thesis using False cF u(2) by (simp add: emit_emit)
    qed
  qed
next
  case (4 ex bi kwargs name)
  then show ?case by simp
next
  case (5 ex bi kwargs name c cs)
  note prem = 5(6)
  show ?case
  proof (cases "c = CHR ''}''")
    case True
    from prem True obtain r u where r: "render_field ex bi kwargs name None [] = Inr r"
        and u: "do_markup ex bi kwargs cs = Inr u" "t = r @ u"
      by (auto simp: emit_Inr_iff split: sum.splits)
    from 5(1)[OF True r u(1)] show ?thesis using True r u(2) by (simp add: emit_emit)
  next
    case False
    with prem have nb: "c \<noteq> CHR ''{''" by (auto split: if_splits)
    show ?thesis
    proof (cases "c = CHR ''[''")
      case True
      then show ?thesis using 5(2)[OF False nb True] prem False nb by simp
    next
      case nk: False
      show ?thesis
      proof (cases "c = CHR ''!''")
        case True
        then show ?thesis using 5(3)[OF False nb nk True] prem False nb nk by simp
      next
        case ne: False
        show ?thesis
        proof (cases "c = CHR '':''")
          case True
          then show ?thesis using 5(4)[OF False nb nk ne True] prem False nb nk ne by simp
        next
          case nc: False
          then show ?thesis using 5(5)[OF False nb nk ne nc] prem False nb nk ne by simp
        qed
      qed
    qed
  qed
next
  case (6 ex bi kwargs name)
  then show ?case by simp
next
  case (7 ex bi kwargs name c cs)
  then show ?case by (cases "c = CHR '']''") simp_all
next
  case (8 ex bi kwargs name)
  then show ?case by simp
next
  case (9 ex bi kwargs name c)
  then show ?case by simp
next
  case (10 ex bi kwargs name c d ds)
  note prem = 10(3)
  show ?case
  proof (cases "d = CHR ''}''")
    case True
    from prem True obtain r u where
        r: "render_field ex bi kwargs name (if c = CHR 0x00 then None else Some c) [] = Inr r"
        and u: "do_markup ex bi kwargs ds = Inr u" "t = r @ u"
      by (auto simp: emit_Inr_iff split: sum.splits)
    from 10(1)[OF True r u(1)] show ?thesis using True r u(2) by (simp add: emit_emit)
  next
    case False
    with prem have dc: "d = CHR '':''" by (auto split: if_splits)
    from prem False dc have
      "parse_spec ex bi kwargs name (if c = CHR 0x00 then None else Some c) [] 0 ds = Inr t"
      by simp
    from 10(2)[OF False dc this] show ?thesis using False dc by simp
  qed
next
  case (11 ex bi kwargs name conv spec n)
  then show ?case by simp
next
  case (12 ex bi kwargs name conv spec n c cs)
  note prem = 12(4)
  show ?case
  proof (cases "c = CHR ''}''")
    case True
    show ?thesis
    proof (cases n)
      case 0
      from prem True 0 obtain r u where r: "render_field ex bi kwargs name conv spec = Inr r"
          and u: "do_markup ex bi kwargs cs = Inr u" "t = r @ u"
        by (auto simp: emit_Inr_iff split: sum.splits)
      from 12(1)[OF True 0 r u(1)] show ?thesis using True 0 r u(2) by (simp add: emit_emit)
    next
      case (Suc m)
      from prem True Suc have "parse_spec ex bi kwargs name conv (spec @ [c]) m cs = Inr t" by simp
      from 12(2)[OF True Suc this] show ?thesis using True Suc by simp
    qed
  next
    case False
    from prem False have
      "parse_spec ex bi kwargs name conv (spec @ [c]) (if c = CHR ''{'' then Suc n else n) cs = Inr t"
      by simp
    from 12(3)[OF False this] show ?thesis using False by simp
  qed
qed

lemma str_format_append:
  "str_format bi kw pre = Inr t \<Longrightarrow> str_format bi kw (pre @ rest) = emit t (str_format bi kw rest)"
  unfolding str_format_def build_string.simps by (rule do_markup_append(1))

lemma parse_field_name:
  "list_all (\<lambda>c. c \<notin> set ''}!:[{'') name \<Longrightarrow>
   parse_field ex bi kw acc (name @ CHR ''}'' # post) =
     (case render_field ex bi kw (acc @ name) None [] of
        Inl e \<Rightarrow> Inl e
      | Inr r \<Rightarrow> emit r (do_markup ex bi kw post))"
  by (induction name arbitrary: acc) auto

lemma do_markup_field:
  assumes "name \<noteq> []" and "list_all (\<lambda>c. c \<notin> set ''}!:[{'') name"
  shows "do_markup ex bi kw (CHR ''{'' # name @ CHR ''}'' # post) =
     (case render_field ex bi kw name None [] of
        Inl e \<Rightarrow> Inl e
      | Inr r \<Rightarrow> emit r (do_markup ex bi kw post))"
proof -
  from assms(1) obtain n ns where name: "name = n # ns" by (cases name) auto
  with assms(2) have "n \<noteq> CHR ''{''" by simp
  then have "do_markup ex bi kw (CHR ''{'' # name @ CHR ''}'' # post) =
      parse_field ex bi kw [] (name @ CHR ''}'' # post)"
    by (simp add: name)
  then show ?thesis using parse_field_name[OF assms(2), of ex bi kw "[]" post] by simp
qed

lemma do_markup_plain:
  "list_all (\<lambda>c. c \<noteq> CHR ''{'' \<and> c \<noteq> CHR ''}'') s \<Longrightarrow> do_markup ex bi kw s = Inr s"
  by (induction s rule: induct_list012) (auto simp: emit_def)

lemma str_format_plain:
  "list_all (\<lambda>c. c \<noteq> CHR ''{'' \<and> c \<noteq> CHR ''}'') s \<Longrightarrow> str_format bi kw s = Inr s"
  unfolding str_format_def build_string.simps by (rule do_markup_plain)

lemma alpha_not_digit: "is_alpha c \<Longrightarrow> c \<notin> set digits"
  by (auto simp: is_alpha_def lower_letters_def upper_letters_def digits_def)

lemma digit_val_None: "c \<notin> set digits \<Longrightarrow> digit_val c = None"
  by (simp add: digit_val_def digits_def)

lemma key_char_plain:
  "is_alnum c \<or> c = CHR ''_'' \<or> c = CHR 0x0A \<Longrightarrow> c \<notin> set ''}!:.[{''"
  by (auto simp: is_alnum_def is_alpha_def lower_letters_def upper_letters_def digits_def)

lemma key_pattern_chars:
  assumes "key_pattern s"
  shows "\<exists>c cs. s = c # cs \<and> is_alpha c \<and> list_all (\<lambda>x. is_alnum x \<or> x = CHR ''_'') cs"
proof -
  from assms obtain c cs where s: "s = c # cs" and a: "is_alpha c" and ne: "cs \<noteq> []"
      and b: "list_all (\<lambda>x. is_alnum x \<or> x = CHR ''_'') (butlast cs)" and l: "is_alnum (last cs)"
    by (auto simp: key_pattern_def split: list.splits)
  have "list_all (\<lambda>x. is_alnum x \<or> x = CHR ''_'') (butlast cs @ [last cs])"
    using b l by simp
  then have "list_all (\<lambda>x. is_alnum x \<or> x = CHR ''_'') cs"
    using ne by simp
  with s a show ?thesis by blast
qed

text \<open>A valid key is a name: it starts with a letter and has none of the characters
  that end or structure a field name.\<close>

lemma KEY_RE_plain:
  assumes "KEY_RE name"
  shows "\<exists>c cs. name = c # cs \<and> is_alpha c \<and> list_all (\<lambda>c. c \<notin> set ''}!:.[{'') name"
proof -
  have "\<exists>c cs. name = c # cs \<and> is_alpha c \<and>
          list_all (\<lambda>x. is_alnum x \<or> x = CHR ''_'' \<or> x = CHR 0x0A) cs"
  proof (cases "key_pattern name")
    case True
    from key_pattern_chars[OF True] obtain c cs where
      "name = c # cs" "is_alpha c" "list_all (\<lambda>x. is_alnum x \<or> x = CHR ''_'') cs" by blast
    then show ?thesis by (auto simp: list_all_iff)
  next
    case False
    with assms have ne: "name \<noteq> []" and nl: "last name = CHR 0x0A" and kp: "key_pattern (butlast name)"
      by (auto simp: KEY_RE_def)
    from key_pattern_chars[OF kp] obtain c cs where
      b: "butlast name = c # cs" and a: "is_alpha c" and l: "list_all (\<lambda>x. is_alnum x \<or> x = CHR ''_'') cs"
      by blast
    have "name = butlast name @ [last name]" using ne by simp
    then have "name = c # (cs @ [CHR 0x0A])" using b nl by simp
    moreover have "list_all (\<lambda>x. is_alnum x \<or> x = CHR ''_'' \<or> x = CHR 0x0A) (cs @ [CHR 0x0A])"
      using l by (auto simp: list_all_iff)
    ultimately show ?thesis using a by blast
  qed
  then obtain c cs where n: "name = c # cs" and a: "is_alpha c"
      and l: "list_all (\<lambda>x. is_alnum x \<or> x = CHR ''_'' \<or> x = CHR 0x0A) cs" by blast
  have "c \<notin> set ''}!:.[{''" using a key_char_plain[of c] by (simp add: is_alnum_def)
  moreover have "list_all (\<lambda>c. c \<notin> set ''}!:.[{'') cs"
    using l key_char_plain by (simp add: list_all_iff)
  ultimately show ?thesis using n a by simp
qed

text \<open>
  The field \<^verbatim>\<open>{name}\<close> of a valid key: the keyword \<open>name\<close> is looked up and its value
  is rendered with the empty format specification.
\<close>

lemma render_field_key:
  assumes "KEY_RE name"
  shows "render_field ex bi kw name None [] =
     (case kw name of
        None \<Rightarrow> Inl (KeyError name)
      | Some v \<Rightarrow> format_value bi v [])"
proof -
  from KEY_RE_plain[OF assms] obtain c cs where n: "name = c # cs" and a: "is_alpha c"
      and pl: "list_all (\<lambda>c. c \<notin> set ''}!:.[{'') name" by blast
  have "\<forall>x\<in>set name. x \<noteq> CHR ''.'' \<and> x \<noteq> CHR ''[''"
    using pl by (auto simp: list_all_iff)
  then have tw: "takeWhile (\<lambda>c. c \<noteq> CHR ''.'' \<and> c \<noteq> CHR ''['') name = name"
    and dw: "dropWhile (\<lambda>c. c \<noteq> CHR ''.'' \<and> c \<noteq> CHR ''['') name = []"
    by (simp_all add: takeWhile_eq_all_conv)
  have gi: "get_integer name = Inr None"
    using digit_val_None[OF alpha_not_digit[OF a]] by (simp add: get_integer_def n)
  have ne: "name \<noteq> []" using n by simp
  have "get_field_object bi kw name =
      (case kw name of None \<Rightarrow> Inl (KeyError name) | Some v \<Rightarrow> Inr v)"
    using ne by (simp add: get_field_object_def Let_def tw dw gi split: option.splits)
  then show ?thesis by (simp add: render_field_def split: option.splits)
qed

lemma str_format_key:
  assumes "KEY_RE name"
  shows "str_format bi kw (CHR ''{'' # name @ CHR ''}'' # post) =
     (case kw name of
        None \<Rightarrow> Inl (KeyError name)
      | Some v \<Rightarrow>
          (case format_value bi v [] of
             Inl e \<Rightarrow> Inl e
           | Inr r \<Rightarrow> emit r (str_format bi kw post)))"
proof -
  from KEY_RE_plain[OF assms] have ne: "name \<noteq> []"
      and pl: "list_all (\<lambda>c. c \<notin> set ''}!:.[{'') name" by auto
  have pl': "list_all (\<lambda>c. c \<notin> set ''}!:[{'') name"
    using pl by (auto simp: list_all_iff)
  show ?thesis
    unfolding str_format_def build_string.simps do_markup_field[OF ne pl'] render_field_key[OF assms]
    by (simp split: option.splits)
qed

lemma interpolate_diverges:
  assumes step: "\<And>n. fmt (g n) = Inr (g (Suc n))"
    and grow: "\<And>n. length (g n) < length (g (Suc n))"
    and bound: "\<forall>s\<in>set seen. length s < length (g n)"
  shows "interpolate fmt (PStr (g n)) seen = None"
proof -
  define P where "P = (\<lambda>(f :: string \<Rightarrow> error + string) res (seen :: string list) (y :: error + pyval).
      f = fmt \<longrightarrow> (\<forall>n. res = PStr (g n) \<longrightarrow> (\<forall>s\<in>set seen. length s < length (g n)) \<longrightarrow> False))"
  have "P f res seen y" if "interpolate f res seen = Some y" for f res seen y
  proof (rule interpolate.raw_induct[where P = P, OF _ that], goal_cases)
    case (1 interp f res seen y)
    show ?case unfolding P_def
    proof (intro impI allI)
      fix n
      assume f: "f = fmt" and r: "res = PStr (g n)"
        and b: "\<forall>s\<in>set seen. length s < length (g n)"
      have ns: "g n \<notin> set seen" using b by auto
      from 1(2) have "interp fmt (PStr (g (Suc n))) (g n # seen) = Some y"
        using f r ns step by simp
      from 1(1)[OF this] have "P fmt (PStr (g (Suc n))) (g n # seen) y" .
      then have "(\<forall>s\<in>set (g n # seen). length s < length (g (Suc n))) \<longrightarrow> False"
        unfolding P_def by blast
      moreover have "\<forall>s\<in>set (g n # seen). length s < length (g (Suc n))"
        using b grow[of n] by (auto intro: less_trans)
      ultimately show False by blast
    qed
  qed
  then have "interpolate fmt (PStr (g n)) seen \<noteq> Some y" for y
    unfolding P_def using bound by blast
  then show ?thesis by (cases "interpolate fmt (PStr (g n)) seen") auto
qed

lemmas eval_format =
  str_format_def render_field_def get_field_object_def get_integer_def digit_val_def
  PY_SSIZE_T_MAX_def get_item_def do_conversion_def format_value_def py_str_def emit_def

section \<open>Termination of the interpolation loop\<close>

text \<open>
  C2, as the code has it. The loop records every string it substitutes in and stops as
  soon as the current string is one of them. It returns (a value or the error of a
  substitution) whenever the strings that substitution can produce from the starting
  value lie in a finite set \<open>S\<close>: in particular on every cycle of parameters that refer
  to each other. \<open>fmt\<close> is the substitution, \<^verbatim>\<open>str.format\<close> on the parsed values.
\<close>

theorem interpolate_terminates:
  assumes "finite S" and "\<forall>s\<in>S. \<forall>t. fmt s = Inr t \<longrightarrow> t \<in> S"
    and "is_string res \<longrightarrow> chars_of res \<in> S"
  shows "(\<exists>y. interpolate fmt res seen = Some y) \<and>
         (is_string res \<and> chars_of res \<in> set seen \<longrightarrow> interpolate fmt res seen = Some (Inr res))"
proof -
  have "\<exists>y. interpolate fmt res seen = Some y" using assms(3)
  proof (induction "card (S - set seen)" arbitrary: res seen rule: less_induct)
    case less
    show ?case
    proof (cases "is_string res \<and> \<not> is_verbatim res \<and> chars_of res \<notin> set seen")
      case False
      then show ?thesis by (simp add: interpolate_stop)
    next
      case True
      let ?s = "chars_of res"
      have inS: "?s \<in> S" using less.prems True by simp
      show ?thesis
      proof (cases "fmt ?s")
        case (Inl e)
        then show ?thesis using True by (subst interpolate.simps) simp
      next
        case (Inr t)
        have "S - set (?s # seen) \<subset> S - set seen" using inS True by auto
        then have "card (S - set (?s # seen)) < card (S - set seen)"
          using assms(1) by (intro psubset_card_mono) auto
        moreover have "is_string (PStr t) \<longrightarrow> chars_of (PStr t) \<in> S"
          using assms(2) inS Inr by simp
        ultimately obtain y where "interpolate fmt (PStr t) (?s # seen) = Some y"
          using less.hyps by blast
        then show ?thesis using True Inr by (subst interpolate.simps) simp
      qed
    qed
  qed
  then show ?thesis by (simp add: interpolate_stop)
qed

theorem interpolate_terminates_witness:
  "finite {''{AA}'', ''{BB}'', ''{CC}''} \<and>
   (\<exists>y. interpolate
          (str_format no_builtins
             (getitem [(Key [''aa''], PStr ''{BB}''), (Key [''bb''], PStr ''{CC}''),
                       (Key [''cc''], PStr ''{AA}'')]))
          (PStr ''{AA}'') [] = Some y) \<and>
   interpolate
     (str_format no_builtins
        (getitem [(Key [''aa''], PStr ''{BB}''), (Key [''bb''], PStr ''{CC}''),
                  (Key [''cc''], PStr ''{AA}'')]))
     (PStr ''{AA}'') [] = Some (Inr (PStr ''{AA}''))"
proof -
  let ?F = "str_format no_builtins
     (getitem [(Key [''aa''], PStr ''{BB}''), (Key [''bb''], PStr ''{CC}''), (Key [''cc''], PStr ''{AA}'')])"
  have a: "?F ''{AA}'' = Inr ''{BB}''"
    by (simp add: eval_format eval_keys)
  have b: "?F ''{BB}'' = Inr ''{CC}''"
    by (simp add: eval_format eval_keys)
  have c: "?F ''{CC}'' = Inr ''{AA}''"
    by (simp add: eval_format eval_keys)
  have cl: "\<forall>s\<in>{''{AA}'', ''{BB}'', ''{CC}''}. \<forall>t. ?F s = Inr t \<longrightarrow> t \<in> {''{AA}'', ''{BB}'', ''{CC}''}"
    using a b c by simp
  have v: "interpolate ?F (PStr ''{AA}'') [] = Some (Inr (PStr ''{AA}''))"
    by (simp add: interpolate.simps a b c)
  show ?thesis
    using interpolate_terminates[of "{''{AA}'', ''{BB}'', ''{CC}''}" ?F "PStr ''{AA}''" "[]", OF _ cl] v
    by simp
qed

text \<open>
  The claim says that the loop terminates for every raw string and every Parsed Value
  Space, also when a value refers to itself. With \<^verbatim>\<open>PKG_MOD_X='{PKG_MOD_X}x'\<close> in the
  environment, the raw value and the parsed value of that key are both
  \<^verbatim>\<open>'{PKG_MOD_X}x'\<close>; every substitution gives a longer string that was never seen, and
  the resolution of the parameter \<^verbatim>\<open>pkg.mod.x\<close> does not return.
\<close>

theorem resolve_value_self_reference_counterexample:
  "resolve_value no_builtins (Key [''pkg'', ''mod'', ''x''])
     (Declaration (Param (PStr ''default'') (Conv False (py_str no_builtins)) ''doc''))
     False (py_str no_builtins)
     [(Key [''PKG_MOD_X''], PStr ''{PKG_MOD_X}x'')]
     [(Key [''PKG_MOD_X''], PStr ''{PKG_MOD_X}x'')] = None"
proof -
  let ?F = "str_format no_builtins (getitem [(Key [''PKG_MOD_X''], PStr ''{PKG_MOD_X}x'')])"
  let ?g = "\<lambda>n. CHR ''{'' # ''PKG_MOD_X'' @ CHR ''}'' # replicate (Suc n) CHR ''x''"
  have k: "KEY_RE ''PKG_MOD_X''"
    by (simp add: eval_keys)
  have r: "getitem [(Key [''PKG_MOD_X''], PStr ''{PKG_MOD_X}x'')] ''PKG_MOD_X'' =
      Some (PStr ''{PKG_MOD_X}x'')"
    by (simp add: eval_keys)
  have step: "?F (?g n) = Inr (?g (Suc n))" for n
  proof -
    have p: "?F (replicate (Suc n) CHR ''x'') = Inr (replicate (Suc n) CHR ''x'')"
      by (rule str_format_plain) (simp add: list_all_iff)
    show ?thesis
      unfolding str_format_key[OF k] r p by (simp add: format_value_def emit_def)
  qed
  have grow: "length (?g n) < length (?g (Suc n))" for n by simp
  have "interpolate ?F (PStr (?g 0)) [] = None"
    by (rule interpolate_diverges[of ?F ?g "[]" 0, OF step grow]) simp
  then have d: "interpolate ?F (PStr ''{PKG_MOD_X}x'') [] = None" by simp
  have g: "getitem [(Key [''PKG_MOD_X''], PStr ''{PKG_MOD_X}x'')] (key_str (Key [''pkg'', ''mod'', ''x''])) =
      Some (PStr ''{PKG_MOD_X}x'')"
    by (simp add: eval_keys)
  show ?thesis unfolding resolve_value_def g using d by simp
qed

section \<open>Referring to a Verbatim value\<close>

lemmas eval_resolve =
  interpolate.simps resolve_value_def resolve_list_def resolve_dict_def resolve_dict_item_def
  resolver_def sorted_items_def message_def Let_def

text \<open>
  C10, as the code has it. A raw string that contains the placeholder \<^verbatim>\<open>{name}\<close>, the
  bare name of a key whose parsed value is a \<^verbatim>\<open>Verbatim\<close> with text \<open>v\<close>, and where the
  text \<open>pre\<close> before the placeholder substitutes without error: \<^verbatim>\<open>str.format\<close> calls
  \<^verbatim>\<open>Verbatim.__format__\<close>, which raises the assertion error with the text \<open>v\<close>, and so
  does the resolution of the value. Nothing of \<open>v\<close> is inserted.
\<close>

theorem resolve_value_verbatim_reference:
  assumes "getitem raw (key_str k) = Some (PStr (pre @ CHR ''{'' # name @ CHR ''}'' # post))"
    and "str_format bi (getitem parsed) pre = Inr t"
    and "KEY_RE name"
    and "getitem parsed name = Some (PVerbatim v)"
  shows "str_format bi (getitem parsed) (pre @ CHR ''{'' # name @ CHR ''}'' # post) =
           Inl (VerbatimFormat v) \<and>
         resolve_value bi k d pn conv raw parsed = Some (Inl (VerbatimFormat v))"
proof -
  let ?s = "pre @ CHR ''{'' # name @ CHR ''}'' # post"
  have "str_format bi (getitem parsed) (CHR ''{'' # name @ CHR ''}'' # post) =
      Inl (VerbatimFormat v)"
    unfolding str_format_key[OF assms(3)] assms(4) by (simp add: format_value_def)
  then have f: "str_format bi (getitem parsed) ?s = Inl (VerbatimFormat v)"
    by (simp add: str_format_append[OF assms(2)] emit_def)
  have "interpolate (str_format bi (getitem parsed)) (PStr ?s) [] = Some (Inl (VerbatimFormat v))"
    by (subst interpolate.simps) (simp add: f)
  then show ?thesis using f assms(1) by (simp add: resolve_value_def)
qed

text \<open>
  The witness is the second step of one pass of \<^verbatim>\<open>_iter_decls\<close>: \<^verbatim>\<open>app.tpl\<close> is resolved
  first, by a parser that returns its argument, and \<^verbatim>\<open>app.view\<close> refers to it. The pass
  as a whole fails with the same error.
\<close>

theorem resolve_value_verbatim_reference_witness:
  "getitem [(Key [''app'', ''tpl''], PVerbatim ''secret {USER}''),
            (Key [''app'', ''view''], PStr ''see {APP_TPL}'')] (key_str (Key [''app'', ''view''])) =
     Some (PStr ''see {APP_TPL}'') \<and>
   str_format no_builtins
     (getitem [(Key [''USER''], PStr ''root''), (Key [''app'', ''tpl''], PVerbatim ''secret {USER}'')])
     ''see '' = Inr ''see '' \<and>
   KEY_RE ''APP_TPL'' \<and>
   getitem [(Key [''USER''], PStr ''root''), (Key [''app'', ''tpl''], PVerbatim ''secret {USER}'')]
     ''APP_TPL'' = Some (PVerbatim ''secret {USER}'') \<and>
   resolve_value no_builtins (Key [''app'', ''view''])
     (Declaration (Param (PStr ''hello'') (Conv False (py_str no_builtins)) ''doc''))
     False (py_str no_builtins)
     [(Key [''app'', ''tpl''], PVerbatim ''secret {USER}''),
      (Key [''app'', ''view''], PStr ''see {APP_TPL}'')]
     [(Key [''USER''], PStr ''root''), (Key [''app'', ''tpl''], PVerbatim ''secret {USER}'')] =
     Some (Inl (VerbatimFormat ''secret {USER}'')) \<and>
   iter_decls no_builtins
     [(Key [''app'', ''tpl''], PVerbatim ''secret {USER}''),
      (Key [''app'', ''view''], PStr ''see {APP_TPL}'')]
     [(Key [''app'', ''tpl''], Param PNone (Conv False Inr) ''doc''),
      (Key [''app'', ''view''], Param (PStr ''hello'') (Conv False (py_str no_builtins)) ''doc'')]
     [] [(Key [''USER''], PStr ''root'')] =
     Some (Inl (VerbatimFormat ''secret {USER}''))"
proof -
  let ?raw = "[(Key [''app'', ''tpl''], PVerbatim ''secret {USER}''),
      (Key [''app'', ''view''], PStr ''see {APP_TPL}'')]"
  let ?parsed = "[(Key [''USER''], PStr ''root''), (Key [''app'', ''tpl''], PVerbatim ''secret {USER}'')]"
  have h1: "getitem ?raw (key_str (Key [''app'', ''view''])) =
      Some (PStr (''see '' @ CHR ''{'' # ''APP_TPL'' @ CHR ''}'' # []))"
    by (simp add: eval_keys)
  have h2: "str_format no_builtins (getitem ?parsed) ''see '' = Inr ''see ''"
    by (simp add: eval_format)
  have h3: "KEY_RE ''APP_TPL''"
    by (simp add: eval_keys)
  have h4: "getitem ?parsed ''APP_TPL'' = Some (PVerbatim ''secret {USER}'')"
    by (simp add: eval_keys)
  have h5: "iter_decls no_builtins ?raw
     [(Key [''app'', ''tpl''], Param PNone (Conv False Inr) ''doc''),
      (Key [''app'', ''view''], Param (PStr ''hello'') (Conv False (py_str no_builtins)) ''doc'')]
     [] [(Key [''USER''], PStr ''root'')] =
     Some (Inl (VerbatimFormat ''secret {USER}''))"
    by (simp add: eval_resolve eval_format eval_keys)
  show ?thesis
    using resolve_value_verbatim_reference[OF h1 h2 h3 h4] h1 h2 h3 h4 h5 by simp
qed

text \<open>
  The claim concludes that a \<^verbatim>\<open>Verbatim\<close> value can never be spliced into another value.
  A placeholder with a conversion does it: \<^verbatim>\<open>{APP_TPL!s}\<close> formats \<^verbatim>\<open>str(value)\<close>, a plain
  \<^verbatim>\<open>str\<close>, and \<^verbatim>\<open>Verbatim.__format__\<close> is not called. In one pass of \<^verbatim>\<open>_iter_decls\<close>, the
  parsed value of \<^verbatim>\<open>app.tpl\<close> is the \<^verbatim>\<open>Verbatim\<close> \<^verbatim>\<open>'secret {USER}'\<close>, and \<^verbatim>\<open>app.view\<close>, set to
  \<^verbatim>\<open>'see {APP_TPL!s}'\<close>, resolves to \<^verbatim>\<open>'see secret root'\<close>: the text is inserted, and the
  next round of the loop substitutes inside it.
\<close>

theorem iter_decls_verbatim_conversion_counterexample:
  "getitem [(Key [''USER''], PStr ''root''), (Key [''app'', ''tpl''], PVerbatim ''secret {USER}'')]
     ''APP_TPL'' = Some (PVerbatim ''secret {USER}'') \<and>
   resolve_value no_builtins (Key [''app'', ''view''])
     (Declaration (Param (PStr ''hello'') (Conv False (py_str no_builtins)) ''doc''))
     False (py_str no_builtins)
     [(Key [''app'', ''tpl''], PVerbatim ''secret {USER}''),
      (Key [''app'', ''view''], PStr ''see {APP_TPL!s}'')]
     [(Key [''USER''], PStr ''root''), (Key [''app'', ''tpl''], PVerbatim ''secret {USER}'')] =
     Some (Inr (PStr ''see secret root'')) \<and>
   iter_decls no_builtins
     [(Key [''app'', ''tpl''], PVerbatim ''secret {USER}''),
      (Key [''app'', ''view''], PStr ''see {APP_TPL!s}'')]
     [(Key [''app'', ''tpl''], Param PNone (Conv False Inr) ''doc''),
      (Key [''app'', ''view''], Param (PStr ''hello'') (Conv False (py_str no_builtins)) ''doc'')]
     [] [(Key [''USER''], PStr ''root'')] =
     Some (Inr ([(''app'', PMap [(''tpl'', PVerbatim ''secret {USER}''),
                                 (''view'', PStr ''see secret root'')])],
                [(Key [''USER''], PStr ''root''),
                 (Key [''app'', ''tpl''], PVerbatim ''secret {USER}''),
                 (Key [''app'', ''view''], PStr ''see secret root'')]))"
  by (simp add: eval_resolve eval_format eval_keys)

text \<open>
  So does a parser that returns a plain string: with \<^verbatim>\<open>str\<close> as the parser of \<^verbatim>\<open>app.tpl\<close>,
  its parsed value is the plain \<^verbatim>\<open>'secret {USER}'\<close>, and the bare \<^verbatim>\<open>{APP_TPL}\<close> inserts it.
\<close>

lemma iter_decls_verbatim_parsed_by_str:
  "iter_decls no_builtins
     [(Key [''app'', ''tpl''], PVerbatim ''secret {USER}''),
      (Key [''app'', ''view''], PStr ''see {APP_TPL}'')]
     [(Key [''app'', ''tpl''], Param PNone (Conv False (py_str no_builtins)) ''doc''),
      (Key [''app'', ''view''], Param (PStr ''hello'') (Conv False (py_str no_builtins)) ''doc'')]
     [] [(Key [''USER''], PStr ''root'')] =
     Some (Inr ([(''app'', PMap [(''tpl'', PStr ''secret {USER}''),
                                 (''view'', PStr ''see secret root'')])],
                [(Key [''USER''], PStr ''root''),
                 (Key [''app'', ''tpl''], PStr ''secret {USER}''),
                 (Key [''app'', ''view''], PStr ''see secret root'')]))"
  by (simp add: eval_resolve eval_format eval_keys)

section \<open>The load path after coalescing\<close>

lemma append_load_path_total:
  "append_load_path arg st =
     Inr (st\<lparr>heap := extend_list (load_path st) (load_path_parser arg) (heap st)\<rparr>)"
  by (simp add: append_load_path_def Let_def)

text \<open>
  C4. The claim: a call that extends the load path after the raw values have been
  computed fails with the load-path-frozen error. The code does not: \<^verbatim>\<open>prev\<close> and
  \<^verbatim>\<open>_load_path\<close> are one list object, the comparison \<^verbatim>\<open>prev != _load_path\<close> is always
  false and the assertion is never evaluated. With raw values computed and a package
  \<open>p\<close> that is not in the load path, the call returns normally and the load path has
  \<open>p\<close> appended.
\<close>

theorem append_load_path_after_coalescing:
  "dict_truthy (raw_values st) \<Longrightarrow> p \<notin> set (heap st (load_path st)) \<Longrightarrow>
   (\<exists>st'. append_load_path (PathList [p]) st = Inr st' \<and>
          heap st' (load_path st') = heap st (load_path st) @ [p] \<and>
          raw_values st' = raw_values st)"
  by (simp add: append_load_path_total)

theorem append_load_path_after_coalescing_witness:
  "dict_truthy (raw_values (initial_state\<lparr>raw_values := Some [(StrKey CHANNEL_ENV_NAME, PStr ''dev'')]\<rparr>)) \<and>
   ''p1'' \<notin> set (heap initial_state (load_path initial_state)) \<and>
   (\<exists>st'. append_load_path (PathList [''p1''])
            (initial_state\<lparr>raw_values := Some [(StrKey CHANNEL_ENV_NAME, PStr ''dev'')]\<rparr>) = Inr st' \<and>
          heap st' (load_path st') = [''pykern'', ''p1''])"
  using append_load_path_after_coalescing
    [of "initial_state\<lparr>raw_values := Some [(StrKey CHANNEL_ENV_NAME, PStr ''dev'')]\<rparr>" "''p1''"]
  by (auto simp add: initial_state_def THIS_PACKAGE_def LOAD_PATH_DEFAULT_def)

section \<open>Required parameters\<close>

lemma resolve_value_required_missing:
  "getitem raw (key_str k) = None \<Longrightarrow>
   resolve_value bi k (Declaration (Required (Conv pn conv) doc)) pn conv raw parsed =
     Some (Inl (MissingRequired (key_msg k)))"
  by (simp add: resolve_value_def)

lemma resolve_dict_required_missing:
  "resolve_dict k (Declaration (Required DictType doc)) [] = Inr (PMap [])"
  by (simp add: resolve_dict_def sorted_items_def)

text \<open>
  C6. The claim: a \<^verbatim>\<open>Required\<close> declaration of any parser, \<^verbatim>\<open>Required(list, ...)\<close> included,
  whose key no source sets fails with the missing-required-value error that names the
  key's dotted form. \<^verbatim>\<open>_resolve_value\<close> does so. \<^verbatim>\<open>_resolve_list\<close> formats the message of
  the same assertion from the undefined name \<^verbatim>\<open>k\<close>: what is raised is a \<^verbatim>\<open>NameError\<close>,
  which does not name the key.
\<close>

theorem resolve_list_required_missing:
  "getitem raw (key_str k) = None \<Longrightarrow>
   resolve_list k (Declaration (Required ListType doc)) raw = Inl (NameError ''k'')"
  by (simp add: resolve_list_def)

theorem resolve_list_required_missing_witness:
  "getitem ([] :: pyval pydict) (key_str (Key [''pkg'', ''mod'', ''items''])) = None \<and>
   resolve_list (Key [''pkg'', ''mod'', ''items'']) (Declaration (Required ListType ''doc'')) [] =
     Inl (NameError ''k'')"
  using resolve_list_required_missing [of "[]" "Key [''pkg'', ''mod'', ''items'']" "''doc''"]
  by simp

section \<open>List parameters\<close>

text \<open>
  C7. For a declaration \<^verbatim>\<open>(d, list, docstring)\<close> whose default \<open>d\<close> is a list: a raw
  value that is a list \<open>v\<close> resolves to \<open>v\<close> followed by \<open>d\<close>; a raw \<^verbatim>\<open>None\<close> resolves
  to \<^verbatim>\<open>None\<close>; any other raw value fails, with the assertion error of the function or,
  for a \<^verbatim>\<open>Verbatim\<close>, with the error of formatting it for the message; without a raw
  value the result is \<open>d\<close>.
\<close>

theorem resolve_list_default_list:
  "resolve_list k (Declaration (Param (PList d) ListType doc)) raw =
     (case getitem raw (key_str k) of
        None \<Rightarrow> Inr (PList d)
      | Some (PList v) \<Rightarrow> Inr (PList (v @ d))
      | Some PNone \<Rightarrow> Inr PNone
      | Some (PVerbatim s) \<Rightarrow> Inl (VerbatimFormat s)
      | Some x \<Rightarrow> Inl (MustBeList (key_msg k) x))"
  by (simp add: resolve_list_def message_def split: option.splits pyval.splits)

theorem resolve_list_default_list_witness:
  "resolve_list (Key [''pkg'', ''mod'', ''items''])
     (Declaration (Param (PList [PStr ''d1'']) ListType ''doc''))
     [(Key [''pkg'', ''mod'', ''items''], PList [PStr ''c1''])] =
   Inr (PList [PStr ''c1'', PStr ''d1''])"
  using resolve_list_default_list
    [of "Key [''pkg'', ''mod'', ''items'']" "[PStr ''d1'']" "''doc''"
        "[(Key [''pkg'', ''mod'', ''items''], PList [PStr ''c1''])]"]
  by simp

section \<open>Verbatim values\<close>





section \<open>A parameter that refers to another\<close>

lemmas eval_init =
  values_flatten_def merge_item_def
  THIS_PACKAGE_def CHANNEL_ENV_NAME_def LOAD_PATH_ENV_NAME_def VALID_CHANNELS_def CHANNEL_DEFAULT_def
  LOAD_PATH_DEFAULT_def initial_state_def append_load_path_def clean_environ_def load_path_re_def
  root_package_def init_module_def coalesce_values_def init_def

text \<open>
  C3. The module \<^verbatim>\<open>pkg.mod\<close> declares \<^verbatim>\<open>x\<close> and \<^verbatim>\<open>y\<close>, the package \<^verbatim>\<open>pkg\<close> is in the load path,
  and the base configuration of \<^verbatim>\<open>pkg\<close> sets one of them to a string that refers to the
  other. The claim: with \<^verbatim>\<open>x\<close> set to \<^verbatim>\<open>'a{pkg_mod_y}'\<close>, registration resolves \<^verbatim>\<open>y\<close> to
  \<^verbatim>\<open>'b'\<close> and \<^verbatim>\<open>x\<close> to \<^verbatim>\<open>'ab'\<close>. It does not: the keys of the parsed values are upper case,
  so \<^verbatim>\<open>str.format\<close> finds no keyword \<^verbatim>\<open>pkg_mod_y\<close>; and with the upper-case \<^verbatim>\<open>{PKG_MOD_Y}\<close>
  it finds none either, since the declarations are resolved in sorted order and \<^verbatim>\<open>y\<close> is
  not parsed yet when \<^verbatim>\<open>x\<close> is resolved. Both registrations fail with \<^verbatim>\<open>KeyError\<close>.
\<close>

theorem init_forward_reference_counterexample:
  "init no_builtins
     \<lparr>environ = [],
      base_pkconfig =
        [(''pkg'', [(''dev'', [(''pkg'', Dict [(''mod'', Dict [(''x'', Leaf (PStr ''a{pkg_mod_y}''))])])])])],
      home_pkconfig = []\<rparr>
     (Some ''pkg.mod'')
     [(''x'', Leaf (Param (PStr ''default'') (Conv False (py_str no_builtins)) ''doc'')),
      (''y'', Leaf (Param (PStr ''b'') (Conv False (py_str no_builtins)) ''doc''))]
     (initial_state\<lparr>heap := (heap initial_state)(LOAD_PATH_DEFAULT := [''pykern'', ''pkg''])\<rparr>) =
     Some (Inl (KeyError ''pkg_mod_y'')) \<and>
   init no_builtins
     \<lparr>environ = [],
      base_pkconfig =
        [(''pkg'', [(''dev'', [(''pkg'', Dict [(''mod'', Dict [(''x'', Leaf (PStr ''a{PKG_MOD_Y}''))])])])])],
      home_pkconfig = []\<rparr>
     (Some ''pkg.mod'')
     [(''x'', Leaf (Param (PStr ''default'') (Conv False (py_str no_builtins)) ''doc'')),
      (''y'', Leaf (Param (PStr ''b'') (Conv False (py_str no_builtins)) ''doc''))]
     (initial_state\<lparr>heap := (heap initial_state)(LOAD_PATH_DEFAULT := [''pykern'', ''pkg''])\<rparr>) =
     Some (Inl (KeyError ''PKG_MOD_Y''))"
proof -
  have a: "init no_builtins
     \<lparr>environ = [],
      base_pkconfig =
        [(''pkg'', [(''dev'', [(''pkg'', Dict [(''mod'', Dict [(''x'', Leaf (PStr ''a{pkg_mod_y}''))])])])])],
      home_pkconfig = []\<rparr>
     (Some ''pkg.mod'')
     [(''x'', Leaf (Param (PStr ''default'') (Conv False (py_str no_builtins)) ''doc'')),
      (''y'', Leaf (Param (PStr ''b'') (Conv False (py_str no_builtins)) ''doc''))]
     (initial_state\<lparr>heap := (heap initial_state)(LOAD_PATH_DEFAULT := [''pykern'', ''pkg''])\<rparr>) =
     Some (Inl (KeyError ''pkg_mod_y''))"
    by (simp add: eval_init eval_resolve eval_format eval_keys)
  have b: "init no_builtins
     \<lparr>environ = [],
      base_pkconfig =
        [(''pkg'', [(''dev'', [(''pkg'', Dict [(''mod'', Dict [(''x'', Leaf (PStr ''a{PKG_MOD_Y}''))])])])])],
      home_pkconfig = []\<rparr>
     (Some ''pkg.mod'')
     [(''x'', Leaf (Param (PStr ''default'') (Conv False (py_str no_builtins)) ''doc'')),
      (''y'', Leaf (Param (PStr ''b'') (Conv False (py_str no_builtins)) ''doc''))]
     (initial_state\<lparr>heap := (heap initial_state)(LOAD_PATH_DEFAULT := [''pykern'', ''pkg''])\<rparr>) =
     Some (Inl (KeyError ''PKG_MOD_Y''))"
    by (simp add: eval_init eval_resolve eval_format eval_keys)
  show ?thesis using a b by (rule conjI)
qed

text \<open>
  C3, as the code has it: a value can refer to a parameter that is resolved before it,
  by its flat key in upper case. With \<^verbatim>\<open>x\<close> declared with default \<^verbatim>\<open>'b'\<close>, \<^verbatim>\<open>y\<close> with default
  \<^verbatim>\<open>'default'\<close>, and \<^verbatim>\<open>y\<close> set to \<^verbatim>\<open>'a{PKG_MOD_X}'\<close> by the base configuration, registration
  returns the parameters of the module with \<^verbatim>\<open>x\<close> resolved to \<^verbatim>\<open>'b'\<close> and \<^verbatim>\<open>y\<close> to \<^verbatim>\<open>'ab'\<close>.
\<close>

theorem init_backward_reference:
  "\<exists>st'. init no_builtins
     \<lparr>environ = [],
      base_pkconfig =
        [(''pkg'', [(''dev'', [(''pkg'', Dict [(''mod'', Dict [(''y'', Leaf (PStr ''a{PKG_MOD_X}''))])])])])],
      home_pkconfig = []\<rparr>
     (Some ''pkg.mod'')
     [(''x'', Leaf (Param (PStr ''b'') (Conv False (py_str no_builtins)) ''doc'')),
      (''y'', Leaf (Param (PStr ''default'') (Conv False (py_str no_builtins)) ''doc''))]
     (initial_state\<lparr>heap := (heap initial_state)(LOAD_PATH_DEFAULT := [''pykern'', ''pkg''])\<rparr>) =
     Some (Inr (PMap [(''x'', PStr ''b''), (''y'', PStr ''ab'')], st'))"
  by (simp add: eval_init eval_resolve eval_format eval_keys)

end
